theory Spec2Isabelle
  imports Complex_Main "HOL-Library.Sublist" "HOL-Library.Word"
begin

section \<open>Values of the platform\<close>

subsection \<open>Numbers\<close>

text \<open>
  A \<^verbatim>\<open>number\<close> is an IEEE 754 binary64 value: \<^verbatim>\<open>NaN\<close>, an infinity with its sign
  (\<open>True\<close> for negative), or a finite value with a sign, a significand \<open>m\<close> and an exponent
  \<open>e\<close>, standing for \<open>m * 2 ^ e\<close>. The finite values of the format are the ones that
  \<open>is_double\<close> accepts: 53 bits of significand, exponents from \<open>-1074\<close> to \<open>971\<close>, and
  the significand normalised (at least \<open>2 ^ 52\<close>) unless the exponent is the smallest
  one. So every finite value has one representation, the two zeros are
  \<open>Finite False 0 (-1074)\<close> and \<open>Finite True 0 (-1074)\<close>, and \<open>valof\<close> is the real
  number a finite value stands for.
\<close>

datatype number = NaN | Infinity bool | Finite bool nat int

definition is_double :: "number \<Rightarrow> bool" where
  "is_double x =
     (case x of
        Finite s m e \<Rightarrow> m < 2 ^ 53 \<and> - 1074 \<le> e \<and> e \<le> 971 \<and> (e = - 1074 \<or> 2 ^ 52 \<le> m)
      | _ \<Rightarrow> False)"

definition valof :: "number \<Rightarrow> real" where
  "valof x =
     (case x of
        Finite s m e \<Rightarrow> (if s then - real m else real m) * 2 powi e
      | _ \<Rightarrow> 0)"

text \<open>
  Rounding to nearest, ties to even, of the value \<open>N * 2 ^ e\<close> with \<open>N > 0\<close>. The
  result keeps the 53 leading bits of \<open>N\<close>, or fewer when the exponent would fall below
  \<open>-1074\<close>: \<open>t\<close> is the exponent of the result. When \<open>t \<le> e\<close> nothing is lost. Otherwise
  the last \<open>t - e\<close> bits of \<open>N\<close> are dropped and the rest goes up by one when the dropped
  bits are more than half a unit, or exactly half and the rest is odd; a significand
  that reaches \<open>2 ^ 53\<close> this way is \<open>2 ^ 52\<close> at the next exponent. A result beyond the
  largest exponent is an infinity.
\<close>

fun bitLength :: "nat \<Rightarrow> nat" where
  "bitLength n = (if n = 0 then 0 else Suc (bitLength (n div 2)))"

declare bitLength.simps [simp del]

definition finish :: "bool \<Rightarrow> nat \<Rightarrow> int \<Rightarrow> number" where
  "finish s n t = (if 971 < t then Infinity s else Finite s n t)"

definition carry :: "bool \<Rightarrow> nat \<Rightarrow> int \<Rightarrow> number" where
  "carry s n t = (if n = 2 ^ 53 then finish s (2 ^ 52) (t + 1) else finish s n t)"

definition nearestEven :: "nat \<Rightarrow> nat \<Rightarrow> nat" where
  "nearestEven N k =
     (if 2 ^ (k - 1) < N mod 2 ^ k \<or> (N mod 2 ^ k = 2 ^ (k - 1) \<and> odd (N div 2 ^ k))
      then N div 2 ^ k + 1 else N div 2 ^ k)"

definition roundAt :: "bool \<Rightarrow> nat \<Rightarrow> int \<Rightarrow> int \<Rightarrow> number" where
  "roundAt s N e t =
     (if t \<le> e then finish s (N * 2 ^ nat (e - t)) t
      else carry s (nearestEven N (nat (t - e))) t)"

definition round_double :: "bool \<Rightarrow> nat \<Rightarrow> int \<Rightarrow> number" where
  "round_double s N e = roundAt s N e (max (e + int (bitLength N) - 53) (- 1074))"

text \<open>
  The integer \<open>d\<close> at the exponent \<open>e0\<close>, rounded. An exact zero has the sign \<open>z\<close> that the
  operation gives it.
\<close>

definition roundSigned :: "bool \<Rightarrow> int \<Rightarrow> int \<Rightarrow> number" where
  "roundSigned z d e0 =
     (if d = 0 then Finite z 0 (- 1074) else round_double (d < 0) (nat \<bar>d\<bar>) e0)"

text \<open>The finite value \<open>(s, m, e)\<close> as an integer multiple of \<open>2 ^ e0\<close>, for \<open>e0 \<le> e\<close>.\<close>

definition aligned :: "bool \<Rightarrow> nat \<Rightarrow> int \<Rightarrow> int \<Rightarrow> int" where
  "aligned s m e e0 = (if s then - int m else int m) * 2 ^ nat (e - e0)"

text \<open>
  \<^verbatim>\<open>x - y\<close>: the exact difference of two finite values, taken at the smaller of the two
  exponents and rounded. An exact zero is \<open>-0\<close> only for \<open>(-0) - (+0)\<close>. An infinity
  minus the same infinity is \<^verbatim>\<open>NaN\<close>.
\<close>

fun sub_js :: "number \<Rightarrow> number \<Rightarrow> number" where
  "sub_js NaN y = NaN"
| "sub_js x NaN = NaN"
| "sub_js (Infinity s) (Infinity s') = (if s = s' then NaN else Infinity s)"
| "sub_js (Infinity s) (Finite s' m' e') = Infinity s"
| "sub_js (Finite s m e) (Infinity s') = Infinity (\<not> s')"
| "sub_js (Finite s m e) (Finite s' m' e') =
     roundSigned (s \<and> \<not> s')
       (aligned s m e (min e e') - aligned s' m' e' (min e e')) (min e e')"

text \<open>\<^verbatim>\<open>x <= y\<close> and \<^verbatim>\<open>x < y\<close>: false when either side is \<^verbatim>\<open>NaN\<close>; the two zeros are equal.\<close>

fun le_js :: "number \<Rightarrow> number \<Rightarrow> bool" where
  "le_js NaN y = False"
| "le_js x NaN = False"
| "le_js (Infinity s) (Infinity s') = (s \<or> \<not> s')"
| "le_js (Infinity s) (Finite s' m' e') = s"
| "le_js (Finite s m e) (Infinity s') = (\<not> s')"
| "le_js (Finite s m e) (Finite s' m' e') =
     (aligned s m e (min e e') \<le> aligned s' m' e' (min e e'))"

fun lt_js :: "number \<Rightarrow> number \<Rightarrow> bool" where
  "lt_js NaN y = False"
| "lt_js x NaN = False"
| "lt_js (Infinity s) (Infinity s') = (s \<and> \<not> s')"
| "lt_js (Infinity s) (Finite s' m' e') = s"
| "lt_js (Finite s m e) (Infinity s') = (\<not> s')"
| "lt_js (Finite s m e) (Finite s' m' e') =
     (aligned s m e (min e e') < aligned s' m' e' (min e e'))"

text \<open>
  The literal \<^verbatim>\<open>0\<close>, and the number that a decimal literal without fraction denotes:
  \<^verbatim>\<open>1500\<close> is \<open>ofNat 1500\<close>.
\<close>

definition zero :: number where
  "zero = Finite False 0 (- 1074)"

definition ofNat :: "nat \<Rightarrow> number" where
  "ofNat n = roundSigned False (int n) 0"

text \<open>A number is falsy when it is a zero or \<^verbatim>\<open>NaN\<close>.\<close>

fun falsy_number :: "number \<Rightarrow> bool" where
  "falsy_number NaN = True"
| "falsy_number (Infinity s) = False"
| "falsy_number (Finite s m e) = (m = 0)"


subsection \<open>Strings\<close>

text \<open>
  A \<^verbatim>\<open>string\<close> is a sequence of UTF-16 code units. \<open>lit\<close> is the string that a literal
  of the source denotes, for literals of characters below \<open>U+0100\<close>, whose code unit is
  the character's number. The keys of an object (the field names of an interface) are
  identifiers of the program text and stay \<^typ>\<open>string\<close>s.
\<close>

type_synonym jsstring = "16 word list"

definition lit :: "string \<Rightarrow> jsstring" where
  "lit s = map (\<lambda>c. of_nat (of_char c)) s"

text \<open>
  \<^verbatim>\<open>s.includes(t)\<close>: a left-to-right search for an occurrence of \<open>t\<close> in \<open>s\<close>, code unit
  by code unit; the empty string occurs in every string.
\<close>

fun startsWith :: "jsstring \<Rightarrow> jsstring \<Rightarrow> bool" where
  "startsWith s [] = True"
| "startsWith [] (y # ys) = False"
| "startsWith (x # xs) (y # ys) = (x = y \<and> startsWith xs ys)"

fun includes_js :: "jsstring \<Rightarrow> jsstring \<Rightarrow> bool" where
  "includes_js [] t = (t = [])"
| "includes_js (x # xs) t = (startsWith (x # xs) t \<or> includes_js xs t)"

text \<open>
  \<^verbatim>\<open>String.prototype.toLowerCase\<close> maps a string to a string by the case mappings of the
  Unicode character database, which are not part of the repository. The functions that
  call it take it as their first argument \<open>lower\<close>, and what is proved about them holds
  for every function from strings to strings, so for the platform's one.
\<close>


subsection \<open>Errors\<close>

text \<open>
  Reading a property of \<^verbatim>\<open>undefined\<close> raises a \<^verbatim>\<open>TypeError\<close>. A computation that can raise
  has a result of type \<open>jsError + 'a\<close>. \<^verbatim>\<open>Array.prototype.filter\<close> calls its callback on
  the elements from left to right, keeps an element when the callback's value is truthy,
  and stops with the error of the first call that raises.
\<close>

datatype jsError = TypeError

fun truthy :: "bool option \<Rightarrow> bool" where
  "truthy None = False"
| "truthy (Some b) = b"

fun filter_js :: "('a \<Rightarrow> jsError + bool option) \<Rightarrow> 'a list \<Rightarrow> jsError + 'a list" where
  "filter_js f [] = Inr []"
| "filter_js f (x # xs) =
     (case f x of
        Inl err \<Rightarrow> Inl err
      | Inr v \<Rightarrow>
          (case filter_js f xs of
             Inl err \<Rightarrow> Inl err
           | Inr ys \<Rightarrow> Inr (if truthy v then x # ys else ys)))"

text \<open>
  \<^verbatim>\<open>v.p\<close> raises when \<open>v\<close> is \<^verbatim>\<open>undefined\<close>. The optional chain \<^verbatim>\<open>v?.p ...\<close> is
  \<^verbatim>\<open>undefined\<close> when \<open>v\<close> is \<^verbatim>\<open>undefined\<close>, without evaluating the rest of the chain, and is
  the value of \<^verbatim>\<open>v.p ...\<close> otherwise.
\<close>

definition member :: "'a option \<Rightarrow> ('a \<Rightarrow> 'b) \<Rightarrow> jsError + 'b" where
  "member v p = (case v of None \<Rightarrow> Inl TypeError | Some x \<Rightarrow> Inr (p x))"

definition optionalChain ::
  "'a option \<Rightarrow> ('a option \<Rightarrow> jsError + 'b) \<Rightarrow> jsError + 'b option" where
  "optionalChain v rest = (case v of None \<Rightarrow> Inr None | Some x \<Rightarrow> map_sum id Some (rest v))"


section \<open>Data model (types.ts)\<close>

text \<open>
  The enums and interfaces of \<^verbatim>\<open>types.ts\<close>. A \<^verbatim>\<open>number\<close> is a \<^typ>\<open>number\<close> and a
  \<^verbatim>\<open>string\<close> a \<^typ>\<open>jsstring\<close>; an optional field (\<^verbatim>\<open>photos?\<close>, \<^verbatim>\<open>profilePicture?\<close>,
  \<^verbatim>\<open>id?\<close>) is an \<^typ>\<open>'a option\<close>, \<^term>\<open>None\<close> standing for \<^verbatim>\<open>undefined\<close>. Field names that
  several interfaces share (\<^verbatim>\<open>id\<close>, \<^verbatim>\<open>status\<close>) carry the interface as a prefix.
\<close>

datatype OrderStatus = PENDING | STITCHING | READY | DELIVERED

datatype PaymentStatus = PAID | UNPAID

datatype UserRole = TAILOR | CUSTOMER

record PaymentDetails =
  stitchingPrice :: number
  advancePaid :: number
  remainingAmount :: number
  payment_status :: PaymentStatus

record Measurements =
  suitType :: jsstring
  shoulder :: jsstring
  chest :: jsstring
  waist :: jsstring
  neck :: jsstring
  armLength :: jsstring
  wrist :: jsstring
  shirtLength :: jsstring
  shalwarLength :: jsstring
  paincha :: jsstring
  damain :: jsstring
  numPockets :: number
  numSuits :: number
  clothLengthGiven :: jsstring
  measurementDate :: jsstring
  deliveryDate :: jsstring
  specialNotes :: jsstring

record Message =
  message_id :: jsstring
  urdu :: jsstring
  english :: jsstring
  timestamp :: jsstring

text \<open>
  The three shapes an order takes in \<^verbatim>\<open>App\<close>, each an extension of the one before, as the
  object spreads of the source build them:
  \<^item> \<open>OrderData\<close>, the argument of \<^verbatim>\<open>handleAddOrder\<close>:
    \<^verbatim>\<open>{ customerId: string; measurements: Measurements; payment: PaymentDetails }\<close>;
  \<^item> \<open>OrderDoc\<close>, the document written to the store:
    \<^verbatim>\<open>{ ...orderData, status, messages, photos, createdAt }\<close> (\<^verbatim>\<open>createdAt\<close> is not
    declared in the interface \<^verbatim>\<open>Order\<close> but is written into every document);
  \<^item> \<open>Order\<close>, what the snapshot listener puts into the \<^verbatim>\<open>orders\<close> array:
    \<^verbatim>\<open>{ id: d.id, ...d.data() }\<close>.
\<close>

record OrderData =
  customerId :: jsstring
  measurements :: Measurements
  payment :: PaymentDetails

record OrderDoc = OrderData +
  order_status :: OrderStatus
  messages :: "Message list"
  photos :: "jsstring list option"
  createdAt :: jsstring

record Order = OrderDoc +
  order_id :: jsstring

record Customer =
  customer_id :: jsstring
  name :: jsstring
  fatherName :: jsstring
  address :: jsstring
  cnic :: jsstring
  mobileNumber :: jsstring
  profilePicture :: "jsstring option"

record CurrentUser =
  role :: UserRole
  user_id :: "jsstring option"

record AppState =
  customers :: "Customer list"
  orders :: "Order list"
  currentUser :: "CurrentUser option"


section \<open>Payment derivation (OrderForm)\<close>

text \<open>
  \<^verbatim>\<open>const [pay, setPay] = useState({ stitchingPrice: 1500, advancePaid: 500 });\<close>
  \<^verbatim>\<open>const due = pay.stitchingPrice - pay.advancePaid;\<close>
  \<^verbatim>\<open>payment: { ...pay, remainingAmount: due,\<close>
  \<^verbatim>\<open>           status: due <= 0 ? PaymentStatus.PAID : PaymentStatus.UNPAID }\<close>

  The form state \<^verbatim>\<open>pay\<close> is the pair of the two inputs; the specification calls the
  derivation \<^verbatim>\<open>derivePayment\<close>.
\<close>

definition due :: "number \<Rightarrow> number \<Rightarrow> number" where
  "due price advance = sub_js price advance"

definition derivePayment :: "number \<Rightarrow> number \<Rightarrow> PaymentDetails" where
  "derivePayment price advance =
     \<lparr> stitchingPrice = price,
       advancePaid = advance,
       remainingAmount = due price advance,
       payment_status = (if le_js (due price advance) zero then PAID else UNPAID) \<rparr>"


section \<open>Directory search (TailorDashboard)\<close>

text \<open>
  \<^verbatim>\<open>if (!searchTerm) return state.customers;\<close>
  \<^verbatim>\<open>const low = searchTerm.toLowerCase();\<close>
  \<^verbatim>\<open>return state.customers.filter(c =>\<close>
  \<^verbatim>\<open>  c.name.toLowerCase().includes(low) ||\<close>
  \<^verbatim>\<open>  c.mobileNumber.includes(searchTerm) ||\<close>
  \<^verbatim>\<open>  c.fatherName.toLowerCase().includes(low));\<close>

  The empty string is the only falsy search term. The callback reads properties of a
  customer of the list only, and its value is a boolean.
\<close>

definition filteredCustomers ::
  "(jsstring \<Rightarrow> jsstring) \<Rightarrow> Customer list \<Rightarrow> jsstring \<Rightarrow> Customer list" where
  "filteredCustomers lower cs searchTerm =
     (if searchTerm = [] then cs
      else let low = lower searchTerm in
        filter (\<lambda>c. includes_js (lower (name c)) low
                  \<or> includes_js (mobileNumber c) searchTerm
                  \<or> includes_js (lower (fatherName c)) low) cs)"

text \<open>
  \<^verbatim>\<open>if (!searchTerm) return state.orders;\<close>
  \<^verbatim>\<open>const low = searchTerm.toLowerCase();\<close>
  \<^verbatim>\<open>return state.orders.filter(o => {\<close>
  \<^verbatim>\<open>  const customer = state.customers.find(c => c.id === o.customerId);\<close>
  \<^verbatim>\<open>  return o.id.toLowerCase().includes(low) || customer?.name.toLowerCase().includes(low);\<close>
  \<^verbatim>\<open>});\<close>

  \<^verbatim>\<open>Array.prototype.find\<close> is \<^const>\<open>find\<close>, with \<^term>\<open>None\<close> for \<^verbatim>\<open>undefined\<close>. \<^verbatim>\<open>a || b\<close> is
  \<open>a\<close> when \<open>a\<close> is truthy, without evaluating \<open>b\<close>, and \<open>b\<close> otherwise. The value of the
  callback is a boolean or \<^verbatim>\<open>undefined\<close>: a \<^typ>\<open>bool option\<close>.
\<close>

definition orderMatches ::
  "(jsstring \<Rightarrow> jsstring) \<Rightarrow> Customer list \<Rightarrow> jsstring \<Rightarrow> Order \<Rightarrow> jsError + bool option" where
  "orderMatches lower cs low ord =
     (let customer = find (\<lambda>c. customer_id c = customerId ord) cs in
      if includes_js (lower (order_id ord)) low then Inr (Some True)
      else optionalChain customer
             (\<lambda>v. map_sum id (\<lambda>n. includes_js (lower n) low) (member v name)))"

definition filteredOrders ::
  "(jsstring \<Rightarrow> jsstring) \<Rightarrow> Order list \<Rightarrow> Customer list \<Rightarrow> jsstring \<Rightarrow> jsError + Order list" where
  "filteredOrders lower os cs searchTerm =
     (if searchTerm = [] then Inr os
      else let low = lower searchTerm in filter_js (orderMatches lower cs low) os)"


section \<open>Measurement grid (OrderCard, CustomerOrderView, OrderForm)\<close>

text \<open>
  \<^verbatim>\<open>Object.entries(order.measurements)\<close>: the key and value of every field, in the order
  in which \<^verbatim>\<open>OrderForm\<close> creates them (the order of the interface). A value is a string or
  a number. The statements about the grid are about the set of keys, which does not
  depend on this order.
\<close>

datatype FieldValue = Str jsstring | Num number

definition entries :: "Measurements \<Rightarrow> (string \<times> FieldValue) list" where
  "entries m =
     [ (''suitType'', Str (suitType m)),
       (''shoulder'', Str (shoulder m)),
       (''chest'', Str (chest m)),
       (''waist'', Str (waist m)),
       (''neck'', Str (neck m)),
       (''armLength'', Str (armLength m)),
       (''wrist'', Str (wrist m)),
       (''shirtLength'', Str (shirtLength m)),
       (''shalwarLength'', Str (shalwarLength m)),
       (''paincha'', Str (paincha m)),
       (''damain'', Str (damain m)),
       (''numPockets'', Num (numPockets m)),
       (''numSuits'', Num (numSuits m)),
       (''clothLengthGiven'', Str (clothLengthGiven m)),
       (''measurementDate'', Str (measurementDate m)),
       (''deliveryDate'', Str (deliveryDate m)),
       (''specialNotes'', Str (specialNotes m)) ]"

text \<open>\<^verbatim>\<open>v || '-'\<close>: the empty string, the zeros and \<^verbatim>\<open>NaN\<close> are falsy.\<close>

fun orDash :: "FieldValue \<Rightarrow> FieldValue" where
  "orDash (Str s) = (if s = [] then Str (lit ''-'') else Str s)"
| "orDash (Num n) = (if falsy_number n then Str (lit ''-'') else Num n)"

text \<open>
  Both views render the grid with the same expression:
  \<^verbatim>\<open>Object.entries(order.measurements).map(([k, v]) => {\<close>
  \<^verbatim>\<open>  if (['specialNotes', 'measurementDate', 'deliveryDate', 'suitType'].includes(k))\<close>
  \<^verbatim>\<open>    return null;\<close>
  \<^verbatim>\<open>  return <div key={k}> ... {k...} ... {v || '-'} ... </div>;\<close>
  \<^verbatim>\<open>})\<close>
  A \<^verbatim>\<open>null\<close> renders nothing; the grid is the list of the cells that are rendered, each
  with its key and the value shown.
\<close>

definition OrderCard_grid :: "Order \<Rightarrow> (string \<times> FieldValue) list" where
  "OrderCard_grid ord =
     List.map_filter
       (\<lambda>(k, v). if k \<in> set [''specialNotes'', ''measurementDate'', ''deliveryDate'', ''suitType'']
                 then None else Some (k, orDash v))
       (entries (measurements ord))"

definition CustomerOrderView_grid :: "Order \<Rightarrow> (string \<times> FieldValue) list" where
  "CustomerOrderView_grid ord =
     List.map_filter
       (\<lambda>(k, v). if k \<in> set [''specialNotes'', ''measurementDate'', ''deliveryDate'', ''suitType'']
                 then None else Some (k, orDash v))
       (entries (measurements ord))"

text \<open>
  The ten body-measurement inputs of \<^verbatim>\<open>OrderForm\<close>:
  \<^verbatim>\<open>['shoulder', 'chest', 'waist', 'neck', 'armLength', 'wrist', 'shirtLength',\<close>
  \<^verbatim>\<open> 'shalwarLength', 'paincha', 'damain'].map(f => ...)\<close>
\<close>

definition OrderForm_bodyFields :: "string list" where
  "OrderForm_bodyFields =
     [''shoulder'', ''chest'', ''waist'', ''neck'', ''armLength'', ''wrist'', ''shirtLength'',
      ''shalwarLength'', ''paincha'', ''damain'']"


section \<open>Store calls and handlers (App)\<close>

text \<open>
  The handlers of \<^verbatim>\<open>App\<close> talk to the document store through \<^verbatim>\<open>addDoc\<close> and
  \<^verbatim>\<open>updateDoc\<close>. A handler is modelled by the call it issues: \<^verbatim>\<open>addDoc(collection(db,
  "orders"), doc)\<close> is \<open>AddDoc doc\<close>, and \<^verbatim>\<open>updateDoc(doc(db, "orders", id), { field })\<close> is
  \<open>UpdateDoc id\<close> with the one field that the object literal holds. The clock
  (\<^verbatim>\<open>new Date().toISOString()\<close>) and the random source
  (\<^verbatim>\<open>Math.random().toString(36).substr(2, 9)\<close>) are inputs of the handlers.
\<close>

datatype fieldUpdate =
    SetStatus OrderStatus
  | SetMessages "Message list"
  | SetPhotos "jsstring list"

datatype storeCall =
    AddDoc OrderDoc
  | UpdateDoc jsstring fieldUpdate

text \<open>
  \<^verbatim>\<open>await addDoc(collection(db, "orders"), {\<close>
  \<^verbatim>\<open>  ...orderData, status: OrderStatus.PENDING, messages: [], photos: [],\<close>
  \<^verbatim>\<open>  createdAt: new Date().toISOString() });\<close>
\<close>

definition handleAddOrder :: "jsstring \<Rightarrow> OrderData \<Rightarrow> storeCall" where
  "handleAddOrder now orderData =
     AddDoc \<lparr> customerId = customerId orderData,
              measurements = measurements orderData,
              payment = payment orderData,
              order_status = PENDING,
              messages = [],
              photos = Some [],
              createdAt = now \<rparr>"

text \<open>\<^verbatim>\<open>await updateDoc(doc(db, "orders", id), { status });\<close>\<close>

definition handleUpdateStatus :: "jsstring \<Rightarrow> OrderStatus \<Rightarrow> storeCall" where
  "handleUpdateStatus i status = UpdateDoc i (SetStatus status)"

text \<open>
  \<^verbatim>\<open>const order = orders.find(o => o.id === id);\<close>
  \<^verbatim>\<open>if (!order) return;\<close>
  \<^verbatim>\<open>const newMessage = { id: Math.random().toString(36).substr(2, 9), urdu, english,\<close>
  \<^verbatim>\<open>                     timestamp: new Date().toISOString() };\<close>
  \<^verbatim>\<open>await updateDoc(doc(db, "orders", id), { messages: [newMessage, ...order.messages] });\<close>

  The early return issues no call: \<^term>\<open>None\<close>.
\<close>

definition handleSendMessage ::
  "Order list \<Rightarrow> jsstring \<Rightarrow> jsstring \<Rightarrow> jsstring \<Rightarrow> jsstring \<Rightarrow> jsstring \<Rightarrow> storeCall option" where
  "handleSendMessage os rnd now i urduText englishText =
     (case find (\<lambda>ord. order_id ord = i) os of
        None \<Rightarrow> None
      | Some ord \<Rightarrow>
          let newMessage = \<lparr> message_id = rnd, urdu = urduText, english = englishText,
                             timestamp = now \<rparr>
          in Some (UpdateDoc i (SetMessages (newMessage # messages ord))))"

text \<open>\<^verbatim>\<open>await updateDoc(doc(db, "orders", id), { photos });\<close>\<close>

definition handlePhotoUpdate :: "jsstring \<Rightarrow> jsstring list \<Rightarrow> storeCall" where
  "handlePhotoUpdate i ps = UpdateDoc i (SetPhotos ps)"

text \<open>
  The upload of a style photo, the same expression in \<^verbatim>\<open>OrderCard\<close> and in
  \<^verbatim>\<open>CustomerOrderView\<close>:
  \<^verbatim>\<open>reader.onload = () => onPhotoUpdate([...(order.photos || []), reader.result as string]);\<close>
  with \<^verbatim>\<open>onPhotoUpdate={p => onPhotoUpdate(order.id, p)}\<close> in the dashboard that renders the
  view. An array, also the empty one, is truthy; only \<^verbatim>\<open>undefined\<close> gives \<^verbatim>\<open>[]\<close>.
\<close>

fun orEmpty :: "jsstring list option \<Rightarrow> jsstring list" where
  "orEmpty None = []"
| "orEmpty (Some ps) = ps"

definition OrderCard_onload :: "Order \<Rightarrow> jsstring \<Rightarrow> storeCall" where
  "OrderCard_onload ord result = handlePhotoUpdate (order_id ord) (orEmpty (photos ord) @ [result])"

definition CustomerOrderView_onload :: "Order \<Rightarrow> jsstring \<Rightarrow> storeCall" where
  "CustomerOrderView_onload ord result =
     handlePhotoUpdate (order_id ord) (orEmpty (photos ord) @ [result])"


section \<open>The document store\<close>

text \<open>
  The store itself is not part of the repository. Its documented behaviour, as far as
  the handlers rely on it: \<^verbatim>\<open>updateDoc\<close> replaces the named field of the document with the
  given id and leaves every other field and every other document as it is, and fails
  when there is no such document; \<^verbatim>\<open>addDoc\<close> stores the document under an id that the
  store chooses. The snapshot listener then hands the collection back as the \<^verbatim>\<open>orders\<close>
  array, so the store is modelled by that array.
\<close>

datatype storeError = NotFound

fun applyUpdate :: "fieldUpdate \<Rightarrow> Order \<Rightarrow> Order" where
  "applyUpdate (SetStatus s) ord = ord\<lparr>order_status := s\<rparr>"
| "applyUpdate (SetMessages ms) ord = ord\<lparr>messages := ms\<rparr>"
| "applyUpdate (SetPhotos ps) ord = ord\<lparr>photos := Some ps\<rparr>"

definition withId :: "jsstring \<Rightarrow> OrderDoc \<Rightarrow> Order" where
  "withId i d =
     \<lparr> customerId = customerId d, measurements = measurements d, payment = payment d,
       order_status = order_status d, messages = messages d, photos = photos d,
       createdAt = createdAt d, order_id = i \<rparr>"

fun commit :: "jsstring \<Rightarrow> storeCall \<Rightarrow> Order list \<Rightarrow> storeError + Order list" where
  "commit newId (AddDoc d) os = Inr (os @ [withId newId d])"
| "commit newId (UpdateDoc i u) os =
     (if find (\<lambda>ord. order_id ord = i) os = None then Inl NotFound
      else Inr (map (\<lambda>ord. if order_id ord = i then applyUpdate u ord else ord) os))"

text \<open>A handler's call, when it issues one, carried out on the store.\<close>

fun perform :: "jsstring \<Rightarrow> storeCall option \<Rightarrow> Order list \<Rightarrow> storeError + Order list" where
  "perform newId None os = Inr os"
| "perform newId (Some call) os = commit newId call os"


section \<open>Customer login (App)\<close>

text \<open>
  \<^verbatim>\<open>const customer = customers.find(c => c.mobileNumber === mobileNumber);\<close>
  \<^verbatim>\<open>if (customer) { setCurrentUser({ role: UserRole.CUSTOMER, id: customer.id });\<close>
  \<^verbatim>\<open>                return true; }\<close>
  \<^verbatim>\<open>return false;\<close>

  The result is the returned boolean together with the state after the call.
\<close>

definition loginAsCustomer :: "jsstring \<Rightarrow> AppState \<Rightarrow> bool \<times> AppState" where
  "loginAsCustomer mobile st =
     (case find (\<lambda>c. mobileNumber c = mobile) (customers st) of
        Some customer \<Rightarrow>
          (True, st\<lparr>currentUser := Some \<lparr> role = CUSTOMER, user_id = Some (customer_id customer) \<rparr>\<rparr>)
      | None \<Rightarrow> (False, st))"


section \<open>Sample data\<close>

text \<open>
  Concrete values on which the theorems below are evaluated: the customer of the
  specification's example, a customer whose name begins with a capital E with acute
  accent (\<open>U+00C9\<close>), the measurements that \<^verbatim>\<open>quickFill\<close> enters into the form, an order
  of the first customer, and an order whose customer is not in the list.
\<close>

definition aliKhan :: Customer where
  "aliKhan =
     \<lparr> customer_id = lit ''c1'', name = lit ''Ali Khan'', fatherName = lit ''Akbar'',
       address = lit ''Lahore'', cnic = [], mobileNumber = lit ''03001234567'',
       profilePicture = None \<rparr>"

definition elan :: Customer where
  "elan =
     \<lparr> customer_id = lit ''c2'', name = 0xC9 # lit ''lan'', fatherName = lit ''Noor'',
       address = lit ''Multan'', cnic = [], mobileNumber = lit ''03217654321'',
       profilePicture = None \<rparr>"

text \<open>
  On strings of code units below \<open>U+0100\<close>, \<^verbatim>\<open>toLowerCase\<close> replaces each of \<open>A\<close> to \<open>Z\<close>
  and each capital letter of \<open>U+00C0\<close> to \<open>U+00DE\<close> (\<open>U+00D7\<close> is the multiplication sign)
  by the code unit \<open>0x20\<close> above it and keeps every other code unit. The sample strings
  are such strings; for other strings this function is not \<^verbatim>\<open>toLowerCase\<close>, and no
  theorem is about it.
\<close>

definition latin1LowerCase :: "jsstring \<Rightarrow> jsstring" where
  "latin1LowerCase s =
     map (\<lambda>u. if (0x41 \<le> u \<and> u \<le> 0x5A) \<or> (0xC0 \<le> u \<and> u \<le> 0xDE \<and> u \<noteq> 0xD7)
               then u + 0x20 else u) s"

definition quickFill :: Measurements where
  "quickFill =
     \<lparr> suitType = lit ''Shalwar Kameez'', shoulder = lit ''18'', chest = lit ''42'',
       waist = lit ''38'', neck = lit ''15.5'', armLength = lit ''24'', wrist = lit ''9.5'',
       shirtLength = lit ''39'', shalwarLength = lit ''40'', paincha = lit ''8.5'',
       damain = lit ''22'', numPockets = ofNat 2, numSuits = ofNat 1, clothLengthGiven = [],
       measurementDate = lit ''2024-01-01'', deliveryDate = lit ''2024-01-15'',
       specialNotes = [] \<rparr>"

definition sampleData :: OrderData where
  "sampleData =
     \<lparr> customerId = lit ''c1'', measurements = quickFill,
       payment = derivePayment (ofNat 1500) (ofNat 500) \<rparr>"

definition sampleOrder :: Order where
  "sampleOrder =
     \<lparr> customerId = lit ''c1'', measurements = quickFill,
       payment = derivePayment (ofNat 1500) (ofNat 500),
       order_status = STITCHING, messages = [], photos = None,
       createdAt = lit ''2024-01-01T10:00:00.000Z'', order_id = lit ''Ord7'' \<rparr>"

definition orphanOrder :: Order where
  "orphanOrder =
     \<lparr> customerId = lit ''gone'', measurements = quickFill,
       payment = derivePayment (ofNat 1500) (ofNat 1500),
       order_status = READY, messages = [], photos = Some [],
       createdAt = lit ''2024-01-02T10:00:00.000Z'', order_id = lit ''AbX9'' \<rparr>"

definition sampleOrders :: "Order list" where
  "sampleOrders = [orphanOrder, sampleOrder]"

definition sampleState :: AppState where
  "sampleState = \<lparr> customers = [aliKhan], orders = sampleOrders, currentUser = None \<rparr>"

text \<open>
  Numbers with a fraction, by their binary64 representation: \<open>1500.1\<close>, \<open>0.2\<close>, the
  double nearest to their difference (\<open>1499.8999999999999\<close>), \<open>1e16\<close>, and the largest
  finite number.
\<close>

definition n1500_1 :: number where
  "n1500_1 = Finite False 6597509571307110 (- 42)"

definition n0_2 :: number where
  "n0_2 = Finite False 7205759403792794 (- 55)"

definition n1499_9 :: number where
  "n1499_9 = Finite False 6596629962004889 (- 42)"

definition n1e16 :: number where
  "n1e16 = Finite False 5000000000000000 1"

definition maxNumber :: number where
  "maxNumber = Finite False 9007199254740991 971"


section \<open>Auxiliary lemmas\<close>

subsection \<open>Numbers\<close>

text \<open>The definitions unfolded when a number is computed.\<close>

lemmas number_eval =
  ofNat_def roundSigned_def round_double_def roundAt_def carry_def nearestEven_def finish_def
  aligned_def zero_def bitLength.simps

text \<open>The bit length \<open>L\<close> of a positive \<open>n\<close>: \<open>2 ^ (L - 1) \<le> n < 2 ^ L\<close>.\<close>

lemma bitLength_bounds:
  "0 < n \<Longrightarrow> 2 ^ (bitLength n - 1) \<le> n \<and> n < 2 ^ bitLength n"
proof (induction n rule: bitLength.induct)
  case (1 n)
  show ?case
  proof (cases "n div 2 = 0")
    case True
    with 1 have "n = 1" by (simp add: div_eq_0_iff) 
    then show ?thesis by (simp add: bitLength.simps)
  next
    case False
    then have pos: "0 < n div 2" by simp
    have ih: "2 ^ (bitLength (n div 2) - 1) \<le> n div 2 \<and> n div 2 < 2 ^ bitLength (n div 2)"
      using 1 pos by simp
    have bl: "bitLength n = Suc (bitLength (n div 2))"
      using 1(2) by (simp add: bitLength.simps [of n])
    have blpos: "0 < bitLength (n div 2)"
      using pos by (simp add: bitLength.simps [of "n div 2"])
    then obtain j where j: "bitLength (n div 2) = Suc j"
      by (cases "bitLength (n div 2)") simp_all
    from ih j have "2 * 2 ^ j \<le> 2 * (n div 2)" by simp
    also have "\<dots> \<le> n" by simp
    finally have lo: "2 ^ (bitLength n - 1) \<le> n" by (simp add: bl j)
    from ih have "n div 2 + 1 \<le> 2 ^ bitLength (n div 2)" by simp
    then have "2 * (n div 2) + 2 \<le> 2 * 2 ^ bitLength (n div 2)" by simp
    moreover have "n < 2 * (n div 2) + 2" by presburger
    ultimately have hi: "n < 2 ^ bitLength n" by (simp add: bl)
    from lo hi show ?thesis by simp
  qed
qed

text \<open>
  The exact difference of two finite values is the difference of the aligned integers
  at the smaller exponent, so both have the same sign.
\<close>

lemma valof_aligned:
  assumes "e0 \<le> e"
  shows "of_int (aligned s m e e0) * 2 powi e0 = valof (Finite s m e)"
proof -
  have "(2::real) ^ nat (e - e0) * 2 powi e0 = 2 powi (e - e0) * 2 powi e0"
    using assms by (simp add: power_int_def)
  also have "\<dots> = 2 powi e"
    by (simp add: power_int_add [symmetric])
  finally have "(2::real) ^ nat (e - e0) * 2 powi e0 = 2 powi e" .
  then show ?thesis
    by (simp add: aligned_def valof_def mult.assoc)
qed

lemma valof_difference:
  "valof (Finite s m e) - valof (Finite s' m' e')
     = of_int (aligned s m e (min e e') - aligned s' m' e' (min e e')) * 2 powi (min e e')"
proof -
  have "of_int (aligned s m e (min e e')) * 2 powi (min e e') = valof (Finite s m e)"
    by (rule valof_aligned) simp
  moreover have "of_int (aligned s' m' e' (min e e')) * 2 powi (min e e') = valof (Finite s' m' e')"
    by (rule valof_aligned) simp
  ultimately show ?thesis
    by (simp add: left_diff_distrib)
qed

lemma scaled_sign:
  fixes p :: real
  assumes "0 < p"
  shows "(of_int d * p \<le> 0) = (d \<le> 0)" and "(of_int d * p < 0) = (d < 0)"
proof -
  have np: "\<not> p \<le> 0" "\<not> p < 0"
    using assms by simp_all
  show "(of_int d * p \<le> 0) = (d \<le> 0)"
    using assms by (simp add: mult_le_0_iff np less_imp_le)
  show "(of_int d * p < 0) = (d < 0)"
    using assms by (simp add: mult_less_0_iff np)
qed

lemma sign_of_difference:
  "(valof (Finite s m e) \<le> valof (Finite s' m' e')) =
      (aligned s m e (min e e') - aligned s' m' e' (min e e') \<le> 0)"
  "(valof (Finite s m e) < valof (Finite s' m' e')) =
      (aligned s m e (min e e') - aligned s' m' e' (min e e') < 0)"
proof -
  define d where "d = aligned s m e (min e e') - aligned s' m' e' (min e e')"
  define p :: real where "p = 2 powi (min e e')"
  have pos: "0 < p"
    by (simp add: p_def zero_less_power_int)
  have eq: "valof (Finite s m e) - valof (Finite s' m' e') = of_int d * p"
    unfolding d_def p_def by (rule valof_difference)
  have "(valof (Finite s m e) \<le> valof (Finite s' m' e')) = (of_int d * p \<le> 0)"
    using eq by linarith
  then show "(valof (Finite s m e) \<le> valof (Finite s' m' e')) =
      (aligned s m e (min e e') - aligned s' m' e' (min e e') \<le> 0)"
    unfolding scaled_sign [OF pos] d_def .
  have "(valof (Finite s m e) < valof (Finite s' m' e')) = (of_int d * p < 0)"
    using eq by linarith
  then show "(valof (Finite s m e) < valof (Finite s' m' e')) =
      (aligned s m e (min e e') - aligned s' m' e' (min e e') < 0)"
    unfolding scaled_sign [OF pos] d_def .
qed

text \<open>Comparison with the literal \<^verbatim>\<open>0\<close>.\<close>

lemma compare_zero_Finite:
  "le_js (Finite s n t) zero = (s \<or> n = 0)"
  "lt_js (Finite s n t) zero = (s \<and> n \<noteq> 0)"
proof -
  have pos: "(0::int) < 2 ^ nat (t - min t (- 1074))"
    by simp
  show "le_js (Finite s n t) zero = (s \<or> n = 0)"
    using pos by (simp add: zero_def aligned_def mult_le_0_iff zero_le_mult_iff not_le)
  show "lt_js (Finite s n t) zero = (s \<and> n \<noteq> 0)"
    using pos by (simp add: zero_def aligned_def mult_less_0_iff zero_less_mult_iff not_less)
qed

lemma compare_zero_Infinity:
  "le_js (Infinity s) zero = s"
  "lt_js (Infinity s) zero = s"
  by (simp_all add: zero_def)

text \<open>Rounding a positive integer gives an infinity or a non-zero value, of the given sign.\<close>

lemma nearestEven_pos:
  assumes "2 ^ k \<le> N"
  shows "0 < nearestEven N k"
proof -
  have "0 < N div 2 ^ k"
    using assms by (simp add: div_greater_zero_iff)
  then show ?thesis
    by (simp add: nearestEven_def)
qed

lemma round_double_sign:
  assumes "0 < N" and "- 1074 \<le> e"
  shows "round_double s N e = Infinity s
         \<or> (\<exists>n t. round_double s N e = Finite s n t \<and> 0 < n)"
proof -
  define t where "t = max (e + int (bitLength N) - 53) (- 1074)"
  have rd: "round_double s N e = roundAt s N e t"
    by (simp add: round_double_def t_def)
  show ?thesis
  proof (cases "t \<le> e")
    case True
    then have "round_double s N e = finish s (N * 2 ^ nat (e - t)) t"
      by (simp add: rd roundAt_def)
    then show ?thesis
      using assms(1) by (simp add: finish_def)
  next
    case False
    then have k: "nat (t - e) = bitLength N - 53"
      using assms(2) by (auto simp add: t_def)
    have "2 ^ (bitLength N - 1) \<le> N"
      using bitLength_bounds [OF assms(1)] by simp
    moreover have "(2::nat) ^ (bitLength N - 53) \<le> 2 ^ (bitLength N - 1)"
      by (rule power_increasing) simp_all
    ultimately have "2 ^ (bitLength N - 53) \<le> N"
      by linarith
    then have pos: "0 < nearestEven N (nat (t - e))"
      unfolding k by (rule nearestEven_pos)
    from False have "round_double s N e = carry s (nearestEven N (nat (t - e))) t"
      by (simp add: rd roundAt_def)
    then show ?thesis
      using pos by (simp add: carry_def finish_def)
  qed
qed

lemma roundSigned_compare_zero:
  assumes "- 1074 \<le> e0"
  shows "le_js (roundSigned z d e0) zero = (d \<le> 0)"
    and "lt_js (roundSigned z d e0) zero = (d < 0)"
proof -
  consider (z) "d = 0" | (nz) "d \<noteq> 0"
    by blast
  then have "le_js (roundSigned z d e0) zero = (d \<le> 0)
           \<and> lt_js (roundSigned z d e0) zero = (d < 0)"
  proof cases
    case z
    then show ?thesis
      by (simp add: roundSigned_def compare_zero_Finite)
  next
    case nz
    then have N: "0 < nat \<bar>d\<bar>"
      by simp
    have rs: "roundSigned z d e0 = round_double (d < 0) (nat \<bar>d\<bar>) e0"
      using nz by (simp add: roundSigned_def)
    from round_double_sign [OF N assms, of "d < 0"] nz show ?thesis
      unfolding rs by (auto simp add: compare_zero_Finite compare_zero_Infinity)
  qed
  then show "le_js (roundSigned z d e0) zero = (d \<le> 0)"
    and "lt_js (roundSigned z d e0) zero = (d < 0)"
    by simp_all
qed

lemma sub_js_compare_zero:
  assumes "- 1074 \<le> e" and "- 1074 \<le> e'"
  shows "le_js (sub_js (Finite s m e) (Finite s' m' e')) zero
           = (valof (Finite s m e) \<le> valof (Finite s' m' e'))"
    and "lt_js (sub_js (Finite s m e) (Finite s' m' e')) zero
           = (valof (Finite s m e) < valof (Finite s' m' e'))"
proof -
  have e0: "- 1074 \<le> min e e'"
    using assms by simp
  show "le_js (sub_js (Finite s m e) (Finite s' m' e')) zero
           = (valof (Finite s m e) \<le> valof (Finite s' m' e'))"
    by (simp add: roundSigned_compare_zero [OF e0] sign_of_difference)
  show "lt_js (sub_js (Finite s m e) (Finite s' m' e')) zero
           = (valof (Finite s m e) < valof (Finite s' m' e'))"
    by (simp add: roundSigned_compare_zero [OF e0] sign_of_difference)
qed

text \<open>
  Rounding is exact when the bits that are dropped are zero, and so is the difference of
  two whole numbers below \<open>2 ^ 53\<close>.
\<close>

lemma bitLength_zero: "bitLength 0 = 0"
  by (simp add: bitLength.simps)

lemma bitLength_double: "0 < n \<Longrightarrow> bitLength (2 * n) = Suc (bitLength n)"
  by (subst bitLength.simps) simp

lemma bitLength_shift: "0 < n \<Longrightarrow> bitLength (n * 2 ^ j) = bitLength n + j"
proof (induction j)
  case 0
  then show ?case by simp
next
  case (Suc j)
  have pos: "0 < n * 2 ^ j"
    using Suc.prems by simp
  have "bitLength (n * 2 ^ Suc j) = bitLength (2 * (n * 2 ^ j))"
    by (simp add: mult.commute mult.left_commute)
  also have "\<dots> = Suc (bitLength (n * 2 ^ j))"
    by (rule bitLength_double [OF pos])
  also have "\<dots> = bitLength n + Suc j"
    using Suc by simp
  finally show ?case .
qed

lemma bitLength_le:
  assumes "n < 2 ^ k"
  shows "bitLength n \<le> k"
proof (cases "n = 0")
  case True
  then show ?thesis by (simp add: bitLength_zero)
next
  case False
  then have "2 ^ (bitLength n - 1) \<le> n"
    using bitLength_bounds [of n] by simp
  with assms have "(2::nat) ^ (bitLength n - 1) < 2 ^ k"
    by linarith
  then have "bitLength n - 1 < k"
    by (simp add: power_strict_increasing_iff)
  then show ?thesis
    by linarith
qed

lemma valof_finish:
  assumes "t \<le> 971"
  shows "valof (finish s n t) = (if s then - real n else real n) * 2 powi t"
  using assms by (simp add: finish_def valof_def)

lemma power_nat_powi:
  assumes "a \<le> b"
  shows "(2::real) ^ nat (b - a) * 2 powi a = 2 powi b"
proof -
  have "(2::real) ^ nat (b - a) * 2 powi a = 2 powi (b - a) * 2 powi a"
    using assms by (simp add: power_int_def)
  also have "\<dots> = 2 powi b"
    by (simp add: power_int_add [symmetric])
  finally show ?thesis .
qed

lemma round_double_exact:
  assumes N: "0 < N"
    and t: "t = max (e + int (bitLength N) - 53) (- 1074)"
    and top: "t \<le> 971"
    and fits: "t \<le> e \<or> 2 ^ nat (t - e) dvd N"
  shows "valof (round_double s N e) = (if s then - real N else real N) * 2 powi e"
proof (cases "t \<le> e")
  case True
  then have rd: "round_double s N e = finish s (N * 2 ^ nat (e - t)) t"
    by (simp add: round_double_def roundAt_def t [symmetric])
  have "real (N * 2 ^ nat (e - t)) * 2 powi t = real N * ((2::real) ^ nat (e - t) * 2 powi t)"
    by simp
  also have "\<dots> = real N * 2 powi e"
    by (simp only: power_nat_powi [OF True])
  finally have "real (N * 2 ^ nat (e - t)) * 2 powi t = real N * 2 powi e" .
  then show ?thesis
    unfolding rd valof_finish [OF top] by (simp del: of_nat_mult of_nat_power)
next
  case False
  define k where "k = nat (t - e)"
  from False fits have dvd: "2 ^ k dvd N"
    by (simp add: k_def)
  have kpos: "0 < k"
    using False by (simp add: k_def)
  have m0: "N mod 2 ^ k = 0"
    using dvd by simp
  have ne: "nearestEven N k = N div 2 ^ k"
    using kpos by (simp add: nearestEven_def m0)
  have "int (bitLength N) \<le> int k + 53"
    using False t by (simp add: k_def) linarith
  then have "bitLength N \<le> k + 53"
    by linarith
  moreover have "N < 2 ^ bitLength N"
    using bitLength_bounds [OF N] by simp
  ultimately have "N < 2 ^ (k + 53)"
    by (meson less_le_trans one_le_numeral power_increasing)
  then have "N div 2 ^ k < 2 ^ 53"
    by (simp add: less_mult_imp_div_less power_add mult.commute)
  then have nc: "N div 2 ^ k \<noteq> 2 ^ 53"
    by simp
  have rd: "round_double s N e = finish s (N div 2 ^ k) t"
    using False nc by (simp add: round_double_def roundAt_def t [symmetric] k_def [symmetric]
        ne carry_def)
  have le: "e \<le> t"
    using False by simp
  have Nk: "N = (N div 2 ^ k) * 2 ^ k"
    using dvd by simp
  have "real (N div 2 ^ k) * 2 powi t = real (N div 2 ^ k) * ((2::real) ^ nat (t - e) * 2 powi e)"
    by (simp only: power_nat_powi [OF le])
  also have "\<dots> = real ((N div 2 ^ k) * 2 ^ k) * 2 powi e"
    by (simp add: k_def)
  also have "\<dots> = real N * 2 powi e"
    using Nk by simp
  finally have "real (N div 2 ^ k) * 2 powi t = real N * 2 powi e" .
  then show ?thesis
    unfolding rd valof_finish [OF top] by simp
qed

lemma sub_js_exact_integer:
  assumes e0: "min e e' \<le> 0"
    and diff: "valof (Finite s m e) - valof (Finite s' m' e') = of_int D"
    and small: "\<bar>D\<bar> < 2 ^ 53"
  shows "valof (sub_js (Finite s m e) (Finite s' m' e')) = of_int D"
proof -
  define e0 where "e0 = min e e'"
  define d where "d = aligned s m e e0 - aligned s' m' e' e0"
  define j where "j = nat (- e0)"
  have e0le: "e0 \<le> 0"
    using e0 by (simp add: e0_def)
  have res: "sub_js (Finite s m e) (Finite s' m' e') = roundSigned (s \<and> \<not> s') d e0"
    by (simp add: d_def e0_def)
  have "of_int d * 2 powi e0 = (of_int D :: real)"
    using diff valof_difference [of s m e s' m' e'] by (simp add: d_def e0_def)
  then have "of_int d * (2 powi e0 * 2 powi (- e0)) = (of_int D :: real) * 2 powi (- e0)"
    by (simp add: mult.assoc [symmetric])
  then have "(of_int d :: real) = of_int D * 2 powi (- e0)"
    by (simp add: power_int_add [symmetric])
  also have "\<dots> = of_int (D * 2 ^ j)"
    using e0le by (simp add: j_def power_int_def)
  finally have d: "d = D * 2 ^ j"
    by (simp only: of_int_eq_iff)
  show ?thesis
  proof (cases "D = 0")
    case True
    then have "roundSigned (s \<and> \<not> s') d e0 = Finite (s \<and> \<not> s') 0 (- 1074)"
      by (simp add: d roundSigned_def)
    then show ?thesis
      unfolding res using True by (simp add: valof_def)
  next
    case False
    define N where "N = nat \<bar>D\<bar>"
    have Npos: "0 < N"
      using False by (simp add: N_def)
    have absd: "nat \<bar>d\<bar> = N * 2 ^ j"
      by (simp add: d N_def abs_mult nat_mult_distrib nat_power_eq)
    have dnz: "d \<noteq> 0"
      using False by (simp add: d)
    have neg: "(d < 0) = (D < 0)"
      by (simp add: d mult_less_0_iff)
    have "roundSigned (s \<and> \<not> s') d e0 = round_double (D < 0) (N * 2 ^ j) e0"
      using dnz by (simp add: roundSigned_def absd neg)
    then have res': "sub_js (Finite s m e) (Finite s' m' e') = round_double (D < 0) (N * 2 ^ j) e0"
      unfolding res .
    have bl: "bitLength (N * 2 ^ j) = bitLength N + j"
      by (rule bitLength_shift [OF Npos])
    have "N < 2 ^ 53"
      using small by (simp add: N_def nat_less_iff)
    then have blN: "bitLength N \<le> 53"
      by (rule bitLength_le)
    have blpos: "0 < bitLength N"
      using Npos by (simp add: bitLength.simps [of N])
    define t where "t = int (bitLength N) - 53"
    have ij: "int j = - e0"
      using e0le by (simp add: j_def)
    have "e0 + int (bitLength (N * 2 ^ j)) - 53 = t"
      by (simp add: bl ij t_def)
    moreover have "- 1074 \<le> t"
      using blpos by (simp add: t_def)
    ultimately have tmax: "t = max (e0 + int (bitLength (N * 2 ^ j)) - 53) (- 1074)"
      by simp
    have t0: "t \<le> 0"
      using blN by (simp add: t_def)
    have fits: "t \<le> e0 \<or> 2 ^ nat (t - e0) dvd N * 2 ^ j"
    proof (cases "t \<le> e0")
      case True
      then show ?thesis by simp
    next
      case False
      have "nat (t - e0) \<le> j"
        using t0 by (simp add: j_def)
      then have "(2::nat) ^ nat (t - e0) dvd 2 ^ j"
        by (rule le_imp_power_dvd)
      then show ?thesis
        by (simp add: dvd_mult)
    qed
    have top: "t \<le> 971"
      using t0 by simp
    have pos: "0 < N * 2 ^ j"
      using Npos by simp
    have "valof (round_double (D < 0) (N * 2 ^ j) e0)
            = (if D < 0 then - real (N * 2 ^ j) else real (N * 2 ^ j)) * 2 powi e0"
      by (rule round_double_exact [OF pos tmax top fits])
    also have "(if D < 0 then - real (N * 2 ^ j) else real (N * 2 ^ j)) = of_int d"
      by (simp add: d N_def abs_if) 
    also have "of_int d * 2 powi e0 = (of_int D :: real)"
      by fact
    finally show ?thesis
      unfolding res' .
  qed
qed

lemma ofNat_form:
  assumes "n < 2 ^ 53"
  shows "\<exists>m e. ofNat n = Finite False m e \<and> - 1074 \<le> e \<and> e \<le> 0 \<and> is_double (ofNat n)
               \<and> valof (ofNat n) = real n"
proof (cases "n = 0")
  case True
  then show ?thesis
    by (simp add: ofNat_def roundSigned_def valof_def is_double_def)
next
  case False
  then have pos: "0 < n" by simp
  define L where "L = bitLength n"
  have L53: "L \<le> 53"
    unfolding L_def using assms by (rule bitLength_le)
  have Lpos: "0 < L"
    using pos by (simp add: L_def bitLength.simps [of n])
  have bounds: "2 ^ (L - 1) \<le> n" "n < 2 ^ L"
    using bitLength_bounds [OF pos] by (simp_all add: L_def)
  define t where "t = int L - 53"
  have tmax: "max (0 + int (bitLength n) - 53) (- 1074) = t"
    using Lpos by (simp add: t_def L_def)
  have t0: "t \<le> 0"
    using L53 by (simp add: t_def)
  have "ofNat n = round_double False n 0"
    using pos by (simp add: ofNat_def roundSigned_def)
  also have "\<dots> = roundAt False n 0 t"
    unfolding round_double_def tmax ..
  also have "\<dots> = Finite False (n * 2 ^ nat (0 - t)) t"
    using t0 by (simp add: roundAt_def finish_def)
  finally have form: "ofNat n = Finite False (n * 2 ^ nat (0 - t)) t" .
  have k: "nat (0 - t) = 53 - L"
    by (simp add: t_def)
  have "n * 2 ^ (53 - L) < 2 ^ L * 2 ^ (53 - L)"
    using bounds(2) by simp
  also have "\<dots> = 2 ^ 53"
    using L53 by (simp add: power_add [symmetric])
  finally have hi: "n * 2 ^ (53 - L) < 2 ^ 53" .
  have "(2::nat) ^ 52 = 2 ^ (L - 1) * 2 ^ (53 - L)"
    using L53 Lpos by (simp add: power_add [symmetric])
  also have "\<dots> \<le> n * 2 ^ (53 - L)"
    using bounds(1) by simp
  finally have lo: "2 ^ 52 \<le> n * 2 ^ (53 - L)" .
  have wf: "is_double (ofNat n)"
    unfolding form k using hi lo t0 Lpos by (simp add: is_double_def t_def)
  have "real (n * 2 ^ nat (0 - t)) * 2 powi t = real n * ((2::real) ^ nat (0 - t) * 2 powi t)"
    by simp
  also have "\<dots> = real n"
    by (simp only: power_nat_powi [OF t0]) simp
  finally have v: "valof (ofNat n) = real n"
    by (simp add: form valof_def del: of_nat_mult of_nat_power)
  show ?thesis
    using form t0 Lpos wf v by (simp add: t_def)
qed

lemma sub_js_ofNat:
  assumes "i < 2 ^ 53" and "j < 2 ^ 53"
  shows "valof (sub_js (ofNat i) (ofNat j)) = real i - real j"
proof -
  obtain m e where x: "ofNat i = Finite False m e" "e \<le> 0" "valof (ofNat i) = real i"
    using ofNat_form [OF assms(1)] by blast
  obtain m' e' where y: "ofNat j = Finite False m' e'" "e' \<le> 0" "valof (ofNat j) = real j"
    using ofNat_form [OF assms(2)] by blast
  have e0: "min e e' \<le> 0"
    using x(2) by simp
  have diff: "valof (Finite False m e) - valof (Finite False m' e') = of_int (int i - int j)"
    using x y by simp
  have "int i < int (2 ^ 53)" and "int j < int (2 ^ 53)"
    using assms by (simp_all only: of_nat_less_iff)
  then have small: "\<bar>int i - int j\<bar> < 2 ^ 53"
    by simp
  show ?thesis
    using sub_js_exact_integer [OF e0 diff small] by (simp add: x(1) y(1))
qed

text \<open>
  A finite result is within half a unit of its last place of the exact value.
\<close>

lemma nearestEven_error:
  assumes "0 < k"
  shows "2 * \<bar>int (nearestEven N k) * 2 ^ k - int N\<bar> \<le> 2 ^ k"
proof -
  define q where "q = N div 2 ^ k"
  define r where "r = N mod 2 ^ k"
  define h :: nat where "h = 2 ^ (k - 1)"
  have N: "N = q * 2 ^ k + r"
    unfolding q_def r_def by (rule div_mult_mod_eq [symmetric])
  have hk: "(2::nat) ^ k = 2 * h"
    using assms by (cases k) (simp_all add: h_def)
  have hki: "(2::int) ^ k = 2 * int h"
    using arg_cong [OF hk, of int] by simp
  have rlt: "r < 2 * h"
    unfolding hk [symmetric] r_def by simp
  show ?thesis
  proof (cases "h < r \<or> (r = h \<and> odd q)")
    case True
    then have ne: "nearestEven N k = q + 1"
      by (simp add: nearestEven_def q_def r_def h_def)
    have "int (q + 1) * 2 ^ k - int N = 2 * int h - int r"
      by (simp add: N hki algebra_simps)
    moreover have "h \<le> r"
      using True by auto
    ultimately show ?thesis
      using rlt by (simp add: ne hki)
  next
    case False
    then have ne: "nearestEven N k = q"
      by (simp add: nearestEven_def q_def r_def h_def)
    have "int q * 2 ^ k - int N = - int r"
      by (simp add: N hki)
    moreover have "r \<le> h"
      using False by auto
    ultimately show ?thesis
      by (simp add: ne hki)
  qed
qed

lemma round_double_error:
  assumes "round_double s N e = Finite s' n t'"
  shows "s' = s \<and> 2 * \<bar>real n * 2 powi t' - real N * 2 powi e\<bar> \<le> 2 powi t'"
proof -
  define t where "t = max (e + int (bitLength N) - 53) (- 1074)"
  have rd: "round_double s N e = roundAt s N e t"
    by (simp add: round_double_def t_def)
  show ?thesis
  proof (cases "t \<le> e")
    case True
    then have "roundAt s N e t = finish s (N * 2 ^ nat (e - t)) t"
      by (simp add: roundAt_def)
    with assms rd have fin: "s' = s" "n = N * 2 ^ nat (e - t)" "t' = t"
      by (auto simp add: finish_def split: if_splits)
    have "real (N * 2 ^ nat (e - t)) * 2 powi t = real N * ((2::real) ^ nat (e - t) * 2 powi t)"
      by simp
    also have "\<dots> = real N * 2 powi e"
      by (simp only: power_nat_powi [OF True])
    finally have "real n * 2 powi t' = real N * 2 powi e"
      by (simp only: fin)
    then show ?thesis
      using fin(1) by (simp add: zero_le_power_int)
  next
    case False
    define k where "k = nat (t - e)"
    have kpos: "0 < k"
      using False by (simp add: k_def)
    have et: "e \<le> t"
      using False by simp
    define m where "m = nearestEven N k"
    have err: "2 * \<bar>int m * 2 ^ k - int N\<bar> \<le> 2 ^ k"
      unfolding m_def by (rule nearestEven_error [OF kpos])
    have ra: "roundAt s N e t = carry s m t"
      using False by (simp add: roundAt_def m_def k_def)
    have pk: "(2::real) ^ k * 2 powi e = 2 powi t"
      unfolding k_def by (rule power_nat_powi [OF et])
    have scaled: "2 * \<bar>real m * 2 powi t - real N * 2 powi e\<bar> \<le> 2 powi t"
    proof -
      have "real m * 2 powi t - real N * 2 powi e
              = of_int (int m * 2 ^ k - int N) * 2 powi e"
        by (simp add: pk [symmetric] algebra_simps)
      then have "2 * \<bar>real m * 2 powi t - real N * 2 powi e\<bar>
              = of_int (2 * \<bar>int m * 2 ^ k - int N\<bar>) * 2 powi e"
        by (simp add: abs_mult)
      also have "\<dots> \<le> of_int (2 ^ k) * 2 powi e"
      proof (rule mult_right_mono)
        show "(of_int (2 * \<bar>int m * 2 ^ k - int N\<bar>) :: real) \<le> of_int (2 ^ k)"
          using err by (simp only: of_int_le_iff)
        show "(0::real) \<le> 2 powi e"
          by (simp add: zero_le_power_int)
      qed
      also have "\<dots> = 2 powi t"
        using pk by simp
      finally show ?thesis .
    qed
    show ?thesis
    proof (cases "m = 2 ^ 53")
      case True
      then have "carry s m t = finish s (2 ^ 52) (t + 1)"
        by (simp add: carry_def)
      with assms rd ra have fin: "s' = s" "n = 2 ^ 52" "t' = t + 1"
        by (auto simp add: finish_def split: if_splits)
      have "real n * 2 powi t' = real m * 2 powi t"
        by (simp add: fin True power_int_add)
      moreover have "(2::real) powi t \<le> 2 powi t'"
        by (simp add: fin power_int_add)
      ultimately show ?thesis
        using scaled fin(1) by simp
    next
      case False
      then have "carry s m t = finish s m t"
        by (simp add: carry_def)
      with assms rd ra have fin: "s' = s" "n = m" "t' = t"
        by (auto simp add: finish_def split: if_splits)
      show ?thesis
        using scaled by (simp add: fin)
    qed
  qed
qed

lemma sub_js_error:
  assumes "sub_js (Finite s m e) (Finite s' m' e') = Finite z n t"
  shows "2 * \<bar>valof (Finite z n t) - (valof (Finite s m e) - valof (Finite s' m' e'))\<bar>
           \<le> 2 powi t"
proof -
  define e0 where "e0 = min e e'"
  define d where "d = aligned s m e e0 - aligned s' m' e' e0"
  have res: "sub_js (Finite s m e) (Finite s' m' e') = roundSigned (s \<and> \<not> s') d e0"
    by (simp add: d_def e0_def)
  have exact: "valof (Finite s m e) - valof (Finite s' m' e') = of_int d * 2 powi e0"
    unfolding d_def e0_def by (rule valof_difference)
  show ?thesis
  proof (cases "d = 0")
    case True
    then have "roundSigned (s \<and> \<not> s') d e0 = Finite (s \<and> \<not> s') 0 (- 1074)"
      by (simp add: roundSigned_def)
    with assms res have "n = 0"
      by simp
    then show ?thesis
      unfolding exact using True by (simp add: valof_def zero_le_power_int)
  next
    case False
    then have "roundSigned (s \<and> \<not> s') d e0 = round_double (d < 0) (nat \<bar>d\<bar>) e0"
      by (simp add: roundSigned_def)
    with assms res have "round_double (d < 0) (nat \<bar>d\<bar>) e0 = Finite z n t"
      by simp
    from round_double_error [OF this]
    have z: "z = (d < 0)" and err: "2 * \<bar>real n * 2 powi t - real (nat \<bar>d\<bar>) * 2 powi e0\<bar> \<le> 2 powi t"
      by simp_all
    define A where "A = real n * 2 powi t"
    define B where "B = real (nat \<bar>d\<bar>) * 2 powi e0"
    have v: "valof (Finite z n t) = (if d < 0 then - A else A)"
      by (simp add: valof_def z A_def)
    have x: "of_int d * 2 powi e0 = (if d < 0 then - B else B)"
      by (simp add: B_def)
    have "\<bar>valof (Finite z n t) - of_int d * 2 powi e0\<bar> = \<bar>A - B\<bar>"
      unfolding v x by (simp add: abs_minus_commute)
    then have "\<bar>valof (Finite z n t) - of_int d * 2 powi e0\<bar>
            = \<bar>real n * 2 powi t - real (nat \<bar>d\<bar>) * 2 powi e0\<bar>"
      by (simp only: A_def B_def)
    then show ?thesis
      unfolding exact using err by simp
  qed
qed


lemma is_double_Finite:
  assumes "is_double x"
  shows "\<exists>s m e. x = Finite s m e \<and> - 1074 \<le> e"
  using assms by (cases x) (simp_all add: is_double_def)

lemma sub_js_not_NaN:
  assumes "- 1074 \<le> e" and "- 1074 \<le> e'"
  shows "sub_js (Finite s m e) (Finite s' m' e') \<noteq> NaN"
proof -
  define d where "d = aligned s m e (min e e') - aligned s' m' e' (min e e')"
  have e0: "- 1074 \<le> min e e'"
    using assms by simp
  have res: "sub_js (Finite s m e) (Finite s' m' e') = roundSigned (s \<and> \<not> s') d (min e e')"
    by (simp add: d_def)
  show ?thesis
  proof (cases "d = 0")
    case True
    then show ?thesis
      unfolding res by (simp add: roundSigned_def)
  next
    case False
    then have N: "0 < nat \<bar>d\<bar>"
      by simp
    have "roundSigned (s \<and> \<not> s') d (min e e') = round_double (d < 0) (nat \<bar>d\<bar>) (min e e')"
      using False by (simp add: roundSigned_def)
    with round_double_sign [OF N e0, of "d < 0"] show ?thesis
      unfolding res by auto
  qed
qed


subsection \<open>Strings and search\<close>

text \<open>The search of \<^verbatim>\<open>includes\<close> finds exactly the contiguous substrings.\<close>

lemma startsWith_prefix: "startsWith s t \<longleftrightarrow> prefix t s"
  by (induction s t rule: startsWith.induct) auto

lemma includes_js_sublist: "includes_js s t \<longleftrightarrow> sublist t s"
  by (induction s) (simp_all add: startsWith_prefix sublist_Cons_right)

text \<open>A callback that never raises makes \<^verbatim>\<open>filter\<close> return, with the truthy elements.\<close>

lemma filter_js_total:
  assumes "\<And>x. f x = Inr (g x)"
  shows "filter_js f xs = Inr (filter (\<lambda>x. truthy (g x)) xs)"
  by (induction xs) (simp_all add: assms)

text \<open>
  The order callback returns a value for every order: the optional chain never reads a
  property of \<^verbatim>\<open>undefined\<close>.
\<close>

lemma orderMatches_value:
  "orderMatches lower cs low ord =
     Inr (if includes_js (lower (order_id ord)) low then Some True
          else map_option (\<lambda>c. includes_js (lower (name c)) low)
                 (find (\<lambda>c. customer_id c = customerId ord) cs))"
  by (cases "find (\<lambda>c. customer_id c = customerId ord) cs")
     (simp_all add: orderMatches_def optionalChain_def member_def)

lemma truthy_orderMatches:
  "truthy (if includes_js (lower (order_id ord)) low then Some True
           else map_option (\<lambda>c. includes_js (lower (name c)) low)
                  (find (\<lambda>c. customer_id c = customerId ord) cs)) \<longleftrightarrow>
     sublist low (lower (order_id ord))
     \<or> (\<exists>c. find (\<lambda>c. customer_id c = customerId ord) cs = Some c
             \<and> sublist low (lower (name c)))"
  by (cases "find (\<lambda>c. customer_id c = customerId ord) cs")
     (simp_all add: includes_js_sublist)

lemma filteredOrders_value:
  assumes "searchTerm \<noteq> []"
  shows "filteredOrders lower os cs searchTerm
           = Inr (filter (\<lambda>x. sublist (lower searchTerm) (lower (order_id x))
                      \<or> (\<exists>c. find (\<lambda>c. customer_id c = customerId x) cs = Some c
                             \<and> sublist (lower searchTerm) (lower (name c)))) os)"
proof -
  have "filter_js (orderMatches lower cs (lower searchTerm)) os
          = Inr (filter (\<lambda>x. truthy
                   (if includes_js (lower (order_id x)) (lower searchTerm) then Some True
                    else map_option (\<lambda>c. includes_js (lower (name c)) (lower searchTerm))
                           (find (\<lambda>c. customer_id c = customerId x) cs))) os)"
    by (rule filter_js_total) (rule orderMatches_value)
  then show ?thesis
    using assms by (simp add: filteredOrders_def truthy_orderMatches)
qed


subsection \<open>Store\<close>

text \<open>
  An update that keeps the ids does not change which order \<^verbatim>\<open>find\<close> returns for an id,
  only its content.
\<close>

lemma find_map_update:
  assumes "\<And>x. order_id (g x) = order_id x"
  shows "find (\<lambda>x. order_id x = i) (map (\<lambda>x. if order_id x = i then g x else x) os)
          = map_option g (find (\<lambda>x. order_id x = i) os)"
  using assms by (induction os) simp_all

lemma handleSendMessage_found:
  assumes "find (\<lambda>x. order_id x = i) os = Some ord"
  shows "handleSendMessage os rnd now i u e
           = Some (UpdateDoc i (SetMessages
               (\<lparr> message_id = rnd, urdu = u, english = e, timestamp = now \<rparr> # messages ord)))"
  using assms by (simp add: handleSendMessage_def)

lemma perform_sendMessage_found:
  assumes "find (\<lambda>x. order_id x = i) os = Some ord"
  shows "perform n (handleSendMessage os rnd now i u e) os
           = Inr (map (\<lambda>x. if order_id x = i
                then x\<lparr>messages := \<lparr> message_id = rnd, urdu = u, english = e, timestamp = now \<rparr>
                                    # messages ord\<rparr>
                else x) os)"
  using assms by (simp add: handleSendMessage_found)


section \<open>Payment\<close>

text \<open>
  C1. For all finite numbers \<open>price\<close> and \<open>advance\<close>, the payment derivation returns as
  \<open>remainingAmount\<close> the difference \<open>price - advance\<close> of the platform, which is a finite
  number or an infinity and never \<^verbatim>\<open>NaN\<close>; a finite one is within half a unit of its last
  place of the exact difference. It is not clamped: it is below zero exactly when the
  advance exceeds the price. The status is \<open>PAID\<close> exactly when the remaining amount
  is at most zero, which is exactly when the price is at most the advance, and \<open>UNPAID\<close>
  otherwise; price and advance are stored as given. For whole amounts below \<open>2 ^ 53\<close>
  the remaining amount is the exact difference, and \<open>derivePayment 1500 2000\<close> has the
  remaining amount \<open>-500\<close> and the status \<open>PAID\<close>.
\<close>

theorem derivePayment_remaining_and_status:
  assumes "is_double price" and "is_double advance"
  shows "remainingAmount (derivePayment price advance) = sub_js price advance
   \<and> remainingAmount (derivePayment price advance) \<noteq> NaN
   \<and> (remainingAmount (derivePayment price advance) = Finite z n t \<longrightarrow>
        2 * \<bar>valof (Finite z n t) - (valof price - valof advance)\<bar> \<le> 2 powi t)
   \<and> (lt_js (remainingAmount (derivePayment price advance)) zero
        \<longleftrightarrow> valof price < valof advance)
   \<and> (payment_status (derivePayment price advance) = PAID
        \<longleftrightarrow> le_js (remainingAmount (derivePayment price advance)) zero)
   \<and> (payment_status (derivePayment price advance) = UNPAID
        \<longleftrightarrow> \<not> le_js (remainingAmount (derivePayment price advance)) zero)
   \<and> (payment_status (derivePayment price advance) = PAID
        \<longleftrightarrow> valof price \<le> valof advance)
   \<and> stitchingPrice (derivePayment price advance) = price
   \<and> advancePaid (derivePayment price advance) = advance
   \<and> (i < 2 ^ 53 \<and> j < 2 ^ 53 \<longrightarrow>
        is_double (ofNat i) \<and> is_double (ofNat j)
        \<and> valof (remainingAmount (derivePayment (ofNat i) (ofNat j))) = real i - real j)
   \<and> remainingAmount (derivePayment (ofNat 1500) (ofNat 2000))
        = Finite True 8796093022208000 (- 44)
   \<and> valof (Finite True 8796093022208000 (- 44)) = - 500
   \<and> payment_status (derivePayment (ofNat 1500) (ofNat 2000)) = PAID"
proof -
  obtain s m e where p: "price = Finite s m e" and pe: "- 1074 \<le> e"
    using is_double_Finite [OF assms(1)] by blast
  obtain s' m' e' where a: "advance = Finite s' m' e'" and ae: "- 1074 \<le> e'"
    using is_double_Finite [OF assms(2)] by blast
  have rem: "remainingAmount (derivePayment price advance) = sub_js price advance"
    by (simp add: derivePayment_def due_def)
  have nan: "sub_js price advance \<noteq> NaN"
    unfolding p a by (rule sub_js_not_NaN [OF pe ae])
  have near: "sub_js price advance = Finite z n t \<longrightarrow>
        2 * \<bar>valof (Finite z n t) - (valof price - valof advance)\<bar> \<le> 2 powi t"
    unfolding p a using sub_js_error by blast
  have lt: "lt_js (sub_js price advance) zero \<longleftrightarrow> valof price < valof advance"
    unfolding p a by (rule sub_js_compare_zero(2) [OF pe ae])
  have le: "le_js (sub_js price advance) zero \<longleftrightarrow> valof price \<le> valof advance"
    unfolding p a by (rule sub_js_compare_zero(1) [OF pe ae])
  have paid: "payment_status (derivePayment price advance) = PAID
                \<longleftrightarrow> le_js (sub_js price advance) zero"
    by (simp add: derivePayment_def due_def)
  have unpaid: "payment_status (derivePayment price advance) = UNPAID
                \<longleftrightarrow> \<not> le_js (sub_js price advance) zero"
    by (simp add: derivePayment_def due_def)
  have kept: "stitchingPrice (derivePayment price advance) = price"
    "advancePaid (derivePayment price advance) = advance"
    by (simp_all add: derivePayment_def)
  have whole: "i < 2 ^ 53 \<and> j < 2 ^ 53 \<longrightarrow>
        is_double (ofNat i) \<and> is_double (ofNat j)
        \<and> valof (remainingAmount (derivePayment (ofNat i) (ofNat j))) = real i - real j"
  proof
    assume ij: "i < 2 ^ 53 \<and> j < 2 ^ 53"
    then have "valof (sub_js (ofNat i) (ofNat j)) = real i - real j"
      by (simp add: sub_js_ofNat)
    moreover have "is_double (ofNat i)" and "is_double (ofNat j)"
      using ij ofNat_form [of i] ofNat_form [of j] by blast+
    ultimately show "is_double (ofNat i) \<and> is_double (ofNat j)
        \<and> valof (remainingAmount (derivePayment (ofNat i) (ofNat j))) = real i - real j"
      by (simp add: derivePayment_def due_def)
  qed
  have ex1: "remainingAmount (derivePayment (ofNat 1500) (ofNat 2000))
        = Finite True 8796093022208000 (- 44)"
    by (simp add: derivePayment_def due_def number_eval)
  have ex2: "valof (Finite True 8796093022208000 (- 44)) = - 500"
    by (simp add: valof_def power_int_minus)
  have ex3: "payment_status (derivePayment (ofNat 1500) (ofNat 2000)) = PAID"
    by (simp add: derivePayment_def due_def number_eval)
  show ?thesis
    unfolding rem paid unpaid using nan near lt le kept whole ex1 [unfolded rem] ex2 ex3
    by (simp add: derivePayment_def due_def)
qed

theorem derivePayment_overpaid_witness:
  "derivePayment (ofNat 1500) (ofNat 2000)
     = \<lparr> stitchingPrice = ofNat 1500, advancePaid = ofNat 2000,
         remainingAmount = Finite True 8796093022208000 (- 44), payment_status = PAID \<rparr>
   \<and> derivePayment (ofNat 1500) (ofNat 500)
     = \<lparr> stitchingPrice = ofNat 1500, advancePaid = ofNat 500,
         remainingAmount = ofNat 1000, payment_status = UNPAID \<rparr>
   \<and> derivePayment (ofNat 1500) (ofNat 1500)
     = \<lparr> stitchingPrice = ofNat 1500, advancePaid = ofNat 1500,
         remainingAmount = zero, payment_status = PAID \<rparr>
   \<and> remainingAmount (derivePayment n1500_1 n0_2) = n1499_9
   \<and> remainingAmount (derivePayment n1e16 (ofNat 1)) = n1e16
   \<and> payment_status (derivePayment n1e16 (ofNat 1)) = UNPAID
   \<and> remainingAmount (derivePayment maxNumber (Finite True 9007199254740991 971))
       = Infinity False
   \<and> remainingAmount (derivePayment (Finite True 9007199254740991 971) maxNumber)
       = Infinity True
   \<and> payment_status (derivePayment (Finite True 9007199254740991 971) maxNumber) = PAID"
proof -
  have h1: "is_double (ofNat 1500)"
    by (simp add: is_double_def number_eval)
  have h2: "is_double (ofNat 2000)"
    by (simp add: is_double_def number_eval)
  show ?thesis
    using derivePayment_remaining_and_status [OF h1 h2, where i = 1500 and j = 2000]
    by (simp add: derivePayment_def due_def number_eval n1500_1_def n0_2_def n1499_9_def
          n1e16_def maxNumber_def)
qed


section \<open>Directory search\<close>

text \<open>
  C2. For every customer list and every non-empty search term, \<open>filteredCustomers\<close> keeps,
  in their order, exactly the customers for which the lower-cased name contains the
  lower-cased term, or the mobile number contains the term as it was typed, or the
  lower-cased father's name contains the lower-cased term; lower-casing is the
  platform's \<^verbatim>\<open>toLowerCase\<close>, whatever function it is. Two customers whose names and
  fathers' names agree after lower-casing and whose mobile numbers are equal are both
  kept or both dropped, whatever their other fields are, and when no customer matches
  the result is the empty list.
\<close>

theorem filteredCustomers_keeps_iff:
  assumes "searchTerm \<noteq> []"
  shows "filteredCustomers lower cs searchTerm
           = filter (\<lambda>c. sublist (lower searchTerm) (lower (name c))
                        \<or> sublist searchTerm (mobileNumber c)
                        \<or> sublist (lower searchTerm) (lower (fatherName c))) cs
       \<and> (c \<in> set (filteredCustomers lower cs searchTerm) \<longleftrightarrow>
            c \<in> set cs
            \<and> (sublist (lower searchTerm) (lower (name c))
               \<or> sublist searchTerm (mobileNumber c)
               \<or> sublist (lower searchTerm) (lower (fatherName c))))
       \<and> (lower (name c1) = lower (name c2) \<and> mobileNumber c1 = mobileNumber c2
            \<and> lower (fatherName c1) = lower (fatherName c2)
            \<longrightarrow> (filteredCustomers lower [c1] searchTerm = [c1])
                 = (filteredCustomers lower [c2] searchTerm = [c2]))
       \<and> ((\<forall>x \<in> set cs. \<not> (sublist (lower searchTerm) (lower (name x))
                             \<or> sublist searchTerm (mobileNumber x)
                             \<or> sublist (lower searchTerm) (lower (fatherName x))))
            \<longrightarrow> filteredCustomers lower cs searchTerm = [])"
  using assms
  by (auto simp add: filteredCustomers_def Let_def includes_js_sublist filter_empty_conv)

theorem filteredCustomers_witness:
  "filteredCustomers latin1LowerCase [aliKhan, elan] (lit ''ali'') = [aliKhan]
   \<and> filteredCustomers latin1LowerCase [aliKhan, elan] (lit ''0300'') = [aliKhan]
   \<and> filteredCustomers latin1LowerCase [aliKhan, elan] (lit ''AKB'') = [aliKhan]
   \<and> filteredCustomers latin1LowerCase [aliKhan, elan] (0xE9 # lit ''lan'') = [elan]
   \<and> filteredCustomers latin1LowerCase [aliKhan, elan] (0xC9 # lit ''LAN'') = [elan]
   \<and> filteredCustomers latin1LowerCase [aliKhan, elan] (lit ''Lahore'') = []
   \<and> filteredCustomers latin1LowerCase [aliKhan, elan] (lit ''zzz'') = []"
proof -
  have h: "lit ''ali'' \<noteq> []"
    by (simp add: lit_def)
  show ?thesis
    using filteredCustomers_keeps_iff [OF h, where lower = latin1LowerCase
        and cs = "[aliKhan, elan]" and c = aliKhan and ?c1.0 = aliKhan and ?c2.0 = aliKhan]
    by (simp add: filteredCustomers_def aliKhan_def elan_def lit_def latin1LowerCase_def)
qed

text \<open>
  C3. For every order list, customer list and non-empty term, \<open>filteredOrders\<close> returns a
  list and raises no error. The callback's value for an order whose \<open>customerId\<close> is the
  id of no customer in the list is \<open>true\<close> when the order's own lower-cased id contains
  the lower-cased term and \<^verbatim>\<open>undefined\<close> otherwise, so such an order is kept if and only if
  its id matches, and the orders before and after it are filtered as they would be
  without it.
\<close>

theorem filteredOrders_unresolved_customer:
  assumes "searchTerm \<noteq> []"
    and "\<forall>c \<in> set cs. customer_id c \<noteq> customerId ord"
  shows "(\<exists>res. filteredOrders lower os cs searchTerm = Inr res
            \<and> (ord \<in> set res \<longleftrightarrow>
                 ord \<in> set os \<and> sublist (lower searchTerm) (lower (order_id ord))))
       \<and> (\<exists>kept_pre kept_post.
            filteredOrders lower pre cs searchTerm = Inr kept_pre
            \<and> filteredOrders lower post cs searchTerm = Inr kept_post
            \<and> filteredOrders lower (pre @ ord # post) cs searchTerm
                = Inr (kept_pre
                       @ (if sublist (lower searchTerm) (lower (order_id ord)) then [ord] else [])
                       @ kept_post))
       \<and> filteredOrders lower os cs searchTerm
           = Inr (filter (\<lambda>x. sublist (lower searchTerm) (lower (order_id x))
                      \<or> (\<exists>c. find (\<lambda>c. customer_id c = customerId x) cs = Some c
                             \<and> sublist (lower searchTerm) (lower (name c)))) os)
       \<and> orderMatches lower cs (lower searchTerm) ord
           = Inr (if sublist (lower searchTerm) (lower (order_id ord)) then Some True else None)"
proof -
  have none: "find (\<lambda>c. customer_id c = customerId ord) cs = None"
    using assms(2) by (simp add: find_None_iff)
  have callback: "orderMatches lower cs (lower searchTerm) ord
           = Inr (if sublist (lower searchTerm) (lower (order_id ord)) then Some True else None)"
    by (simp add: orderMatches_value none includes_js_sublist)
  show ?thesis
    using callback by (simp add: filteredOrders_value [OF assms(1)] none)
qed

theorem filteredOrders_unresolved_witness:
  "find (\<lambda>c. customer_id c = customerId orphanOrder) [aliKhan] = None
   \<and> filteredOrders latin1LowerCase [sampleOrder, orphanOrder, sampleOrder] [aliKhan]
        (lit ''abx'') = Inr [orphanOrder]
   \<and> filteredOrders latin1LowerCase [sampleOrder, orphanOrder, sampleOrder] [aliKhan]
        (lit ''gone'') = Inr []
   \<and> filteredOrders latin1LowerCase [sampleOrder, orphanOrder, sampleOrder] [aliKhan]
        (lit ''khan'') = Inr [sampleOrder, sampleOrder]
   \<and> orderMatches latin1LowerCase [aliKhan] (lit ''gone'') orphanOrder = Inr None"
proof -
  have h1: "lit ''abx'' \<noteq> []"
    by (simp add: lit_def)
  have h2: "\<forall>c \<in> set [aliKhan]. customer_id c \<noteq> customerId orphanOrder"
    by (simp add: aliKhan_def orphanOrder_def lit_def)
  show ?thesis
    using filteredOrders_unresolved_customer [OF h1 h2, where lower = latin1LowerCase
        and os = "[]" and pre = "[sampleOrder]" and post = "[sampleOrder]"]
    by (simp add: filteredOrders_def orderMatches_def optionalChain_def member_def
          sampleOrder_def orphanOrder_def aliKhan_def lit_def latin1LowerCase_def)
qed


section \<open>Measurement grid\<close>

text \<open>
  C4 (as the code has it). For every order, the measurement grid of \<open>OrderCard\<close> shows
  every field of the measurements except the four metadata fields \<open>suitType\<close>,
  \<open>deliveryDate\<close>, \<open>measurementDate\<close> and \<open>specialNotes\<close>: the ten body-measurement fields
  together with \<open>numPockets\<close>, \<open>numSuits\<close> and \<open>clothLengthGiven\<close>, thirteen cells in all,
  each field once.
  The grid of \<open>CustomerOrderView\<close> is the same grid.
\<close>

theorem measurement_grid_fields:
  "set (map fst (OrderCard_grid ord))
     = set OrderForm_bodyFields \<union> {''numPockets'', ''numSuits'', ''clothLengthGiven''}
   \<and> distinct (map fst (OrderCard_grid ord))
   \<and> CustomerOrderView_grid ord = OrderCard_grid ord
   \<and> (k \<in> set (map fst (OrderCard_grid ord)) \<longleftrightarrow>
        k \<in> set (map fst (entries (measurements ord)))
        \<and> k \<notin> {''suitType'', ''deliveryDate'', ''measurementDate'', ''specialNotes''})
   \<and> length (OrderCard_grid ord) = 13"
proof -
  have keys: "map fst (OrderCard_grid ord)
     = OrderForm_bodyFields @ [''numPockets'', ''numSuits'', ''clothLengthGiven'']"
    by (simp add: OrderCard_grid_def entries_def OrderForm_bodyFields_def
          List.map_filter_simps)
  have same: "CustomerOrderView_grid ord = OrderCard_grid ord"
    by (simp add: OrderCard_grid_def CustomerOrderView_grid_def)
  have mem: "k \<in> set (map fst (OrderCard_grid ord)) \<longleftrightarrow>
        k \<in> set (map fst (entries (measurements ord)))
        \<and> k \<notin> {''suitType'', ''deliveryDate'', ''measurementDate'', ''specialNotes''}"
    unfolding keys by (auto simp add: entries_def OrderForm_bodyFields_def)
  have len: "length (OrderCard_grid ord) = 13"
    using arg_cong [OF keys, of length] by (simp add: OrderForm_bodyFields_def)
  have fields: "set (map fst (OrderCard_grid ord))
     = set OrderForm_bodyFields \<union> {''numPockets'', ''numSuits'', ''clothLengthGiven''}"
    unfolding keys by simp
  have dist: "distinct (map fst (OrderCard_grid ord))"
    unfolding keys by (simp add: OrderForm_bodyFields_def)
  show ?thesis
    using fields dist same mem len by blast
qed

theorem measurement_grid_counterexample:
  "\<not> set (map fst (OrderCard_grid sampleOrder)) = set OrderForm_bodyFields"
proof
  assume eq: "set (map fst (OrderCard_grid sampleOrder)) = set OrderForm_bodyFields"
  have "''numPockets'' \<in> set (map fst (OrderCard_grid sampleOrder))"
    by (simp add: OrderCard_grid_def entries_def List.map_filter_simps)
  with eq have "''numPockets'' \<in> set OrderForm_bodyFields"
    by simp
  then show False
    by (simp add: OrderForm_bodyFields_def)
qed

theorem measurement_grid_witness:
  "OrderCard_grid sampleOrder =
     [(''shoulder'', Str (lit ''18'')), (''chest'', Str (lit ''42'')),
      (''waist'', Str (lit ''38'')), (''neck'', Str (lit ''15.5'')),
      (''armLength'', Str (lit ''24'')), (''wrist'', Str (lit ''9.5'')),
      (''shirtLength'', Str (lit ''39'')), (''shalwarLength'', Str (lit ''40'')),
      (''paincha'', Str (lit ''8.5'')), (''damain'', Str (lit ''22'')),
      (''numPockets'', Num (ofNat 2)), (''numSuits'', Num (ofNat 1)),
      (''clothLengthGiven'', Str (lit ''-''))]"
  using measurement_grid_fields [where ord = sampleOrder and k = "''numPockets''"]
  by (simp add: OrderCard_grid_def entries_def List.map_filter_simps sampleOrder_def
        quickFill_def number_eval lit_def)


section \<open>Order creation\<close>

text \<open>
  C5. For every supplied \<open>customerId\<close>, measurements and payment, the order that the
  creation path stores has status \<open>PENDING\<close>, no messages, no photos (the empty list,
  not an absent field), the creation time as \<open>createdAt\<close>, and the supplied
  \<open>customerId\<close>, measurements and payment as they were given.
\<close>

theorem handleAddOrder_defaults:
  "\<exists>ord. commit newId (handleAddOrder now orderData) os = Inr (os @ [ord])
        \<and> order_id ord = newId
        \<and> order_status ord = PENDING
        \<and> messages ord = []
        \<and> photos ord = Some []
        \<and> createdAt ord = now
        \<and> customerId ord = customerId orderData
        \<and> measurements ord = measurements orderData
        \<and> payment ord = payment orderData"
  by (simp add: handleAddOrder_def withId_def)

theorem handleAddOrder_witness:
  "commit (lit ''id1'') (handleAddOrder (lit ''2024-01-01T10:00:00.000Z'') sampleData) []
     = Inr [\<lparr> customerId = lit ''c1'', measurements = quickFill,
              payment = derivePayment (ofNat 1500) (ofNat 500), order_status = PENDING,
              messages = [], photos = Some [],
              createdAt = lit ''2024-01-01T10:00:00.000Z'', order_id = lit ''id1'' \<rparr>]"
  using handleAddOrder_defaults [where newId = "lit ''id1''"
      and now = "lit ''2024-01-01T10:00:00.000Z''" and orderData = sampleData and os = "[]"]
  by (simp add: handleAddOrder_def withId_def sampleData_def)


section \<open>Messages\<close>

text \<open>
  C6. For every order that \<open>handleSendMessage\<close> finds under the given id and every pair of
  texts, the handler writes the message list that consists of one new message (the
  generated id, the two texts, the current time) followed by the messages the order had,
  unchanged and in their order. In the store the order with that id then carries this
  list and every other order is as before; sending a first and then a second message
  leaves \<open>[second, first]\<close> in front of the earlier messages.
\<close>

theorem handleSendMessage_prepends:
  assumes "find (\<lambda>x. order_id x = i) os = Some ord"
  shows "handleSendMessage os rnd now i u e
           = Some (UpdateDoc i (SetMessages
               (\<lparr> message_id = rnd, urdu = u, english = e, timestamp = now \<rparr> # messages ord)))
       \<and> perform n (handleSendMessage os rnd now i u e) os
           = Inr (map (\<lambda>x. if order_id x = i
                then x\<lparr>messages := \<lparr> message_id = rnd, urdu = u, english = e, timestamp = now \<rparr>
                                    # messages ord\<rparr>
                else x) os)
       \<and> (case perform n (handleSendMessage os r1 t1 i u1 e1) os of
             Inl err \<Rightarrow> Inl err
           | Inr os1 \<Rightarrow> perform n (handleSendMessage os1 r2 t2 i u2 e2) os1)
           = Inr (map (\<lambda>x. if order_id x = i
                then x\<lparr>messages := \<lparr> message_id = r2, urdu = u2, english = e2, timestamp = t2 \<rparr>
                                  # \<lparr> message_id = r1, urdu = u1, english = e1, timestamp = t1 \<rparr>
                                  # messages ord\<rparr>
                else x) os)"
proof -
  let ?m1 = "\<lparr> message_id = r1, urdu = u1, english = e1, timestamp = t1 \<rparr>"
  let ?m2 = "\<lparr> message_id = r2, urdu = u2, english = e2, timestamp = t2 \<rparr>"
  let ?os1 = "map (\<lambda>x. if order_id x = i then x\<lparr>messages := ?m1 # messages ord\<rparr> else x) os"
  have first: "perform n (handleSendMessage os r1 t1 i u1 e1) os = Inr ?os1"
    by (rule perform_sendMessage_found [OF assms])
  have "find (\<lambda>x. order_id x = i) ?os1
          = map_option (\<lambda>x. x\<lparr>messages := ?m1 # messages ord\<rparr>) (find (\<lambda>x. order_id x = i) os)"
    by (rule find_map_update) simp
  then have found:
    "find (\<lambda>x. order_id x = i) ?os1 = Some (ord\<lparr>messages := ?m1 # messages ord\<rparr>)"
    by (simp add: assms)
  have "perform n (handleSendMessage ?os1 r2 t2 i u2 e2) ?os1
          = Inr (map (\<lambda>x. if order_id x = i
                  then x\<lparr>messages := ?m2 # messages (ord\<lparr>messages := ?m1 # messages ord\<rparr>)\<rparr>
                  else x) ?os1)"
    by (rule perform_sendMessage_found [OF found])
  also have "\<dots> = Inr (map (\<lambda>x. if order_id x = i
                  then x\<lparr>messages := ?m2 # ?m1 # messages ord\<rparr> else x) os)"
    by simp
  finally have second: "perform n (handleSendMessage ?os1 r2 t2 i u2 e2) ?os1
          = Inr (map (\<lambda>x. if order_id x = i
                  then x\<lparr>messages := ?m2 # ?m1 # messages ord\<rparr> else x) os)" .
  show ?thesis
    using handleSendMessage_found [OF assms] perform_sendMessage_found [OF assms] first second
    by simp
qed

theorem handleSendMessage_witness:
  "find (\<lambda>x. order_id x = lit ''Ord7'') sampleOrders = Some sampleOrder
   \<and> (case perform (lit ''n'')
              (handleSendMessage sampleOrders (lit ''r1'') (lit ''t1'') (lit ''Ord7'') (lit ''u1'') (lit ''e1''))
              sampleOrders of
         Inl err \<Rightarrow> Inl err
       | Inr os1 \<Rightarrow> perform (lit ''n'') (handleSendMessage os1 (lit ''r2'') (lit ''t2'') (lit ''Ord7'') (lit ''u2'') (lit ''e2'')) os1)
       = Inr [orphanOrder,
              sampleOrder\<lparr>messages :=
                [\<lparr> message_id = lit ''r2'', urdu = lit ''u2'', english = lit ''e2'', timestamp = lit ''t2'' \<rparr>,
                 \<lparr> message_id = lit ''r1'', urdu = lit ''u1'', english = lit ''e1'', timestamp = lit ''t1'' \<rparr>]\<rparr>]"
proof -
  have h: "find (\<lambda>x. order_id x = lit ''Ord7'') sampleOrders = Some sampleOrder"
    by (simp add: sampleOrders_def sampleOrder_def orphanOrder_def lit_def)
  show ?thesis
    using h handleSendMessage_prepends [OF h, where n = "lit ''n''" and ?r1.0 = "lit ''r1''"
        and ?t1.0 = "lit ''t1''" and ?u1.0 = "lit ''u1''" and ?e1.0 = "lit ''e1''" and ?r2.0 = "lit ''r2''"
        and ?t2.0 = "lit ''t2''" and ?u2.0 = "lit ''u2''" and ?e2.0 = "lit ''e2''"]
    by (simp add: sampleOrders_def sampleOrder_def orphanOrder_def handleSendMessage_def lit_def)
qed

text \<open>
  C10. When \<open>handleSendMessage\<close> is called with an id that no order in the \<open>orders\<close> list
  has, it returns without issuing a call to the store, and so every order and every
  order's message list stays as it is.
\<close>

theorem handleSendMessage_unknown_order:
  assumes "\<forall>ord \<in> set os. order_id ord \<noteq> i"
  shows "handleSendMessage os rnd now i u e = None
       \<and> perform n (handleSendMessage os rnd now i u e) os = Inr os"
proof -
  have "find (\<lambda>x. order_id x = i) os = None"
    using assms by (simp add: find_None_iff)
  then show ?thesis
    by (simp add: handleSendMessage_def)
qed

theorem handleSendMessage_unknown_witness:
  "find (\<lambda>x. order_id x = lit ''nope'') sampleOrders = None
   \<and> handleSendMessage sampleOrders (lit ''r1'') (lit ''t1'') (lit ''nope'') (lit ''u1'') (lit ''e1'') = None
   \<and> perform (lit ''n'') (handleSendMessage sampleOrders (lit ''r1'') (lit ''t1'') (lit ''nope'') (lit ''u1'') (lit ''e1''))
        sampleOrders
       = Inr sampleOrders"
proof -
  have h: "\<forall>ord \<in> set sampleOrders. order_id ord \<noteq> lit ''nope''"
    by (simp add: sampleOrders_def sampleOrder_def orphanOrder_def lit_def)
  show ?thesis
    using handleSendMessage_unknown_order [OF h, where rnd = "lit ''r1''" and now = "lit ''t1''"
        and u = "lit ''u1''" and e = "lit ''e1''" and n = "lit ''n''"]
    by (simp add: sampleOrders_def sampleOrder_def orphanOrder_def lit_def)
qed


section \<open>Photos\<close>

text \<open>
  C7. For every order and every new photo reference, the upload handler of both views
  writes the photo list that consists of the order's photos followed by the new
  reference; an absent \<open>photos\<close> field counts as the empty list, so the first upload
  writes the one-element list. After the first write has reached the order, a second
  upload writes the old photos followed by the first and then the second reference. In
  the store, the order with that id carries the new list and every other order is as
  before.
\<close>

theorem photo_upload_appends:
  "OrderCard_onload ord p = UpdateDoc (order_id ord) (SetPhotos (orEmpty (photos ord) @ [p]))
   \<and> CustomerOrderView_onload ord p = OrderCard_onload ord p
   \<and> (photos ord = None \<longrightarrow> OrderCard_onload ord p = UpdateDoc (order_id ord) (SetPhotos [p]))
   \<and> (photos ord = Some ps \<longrightarrow>
         OrderCard_onload ord p = UpdateDoc (order_id ord) (SetPhotos (ps @ [p])))
   \<and> OrderCard_onload (applyUpdate (SetPhotos (orEmpty (photos ord) @ [p1])) ord) p2
       = UpdateDoc (order_id ord) (SetPhotos (orEmpty (photos ord) @ [p1, p2]))
   \<and> (ord \<in> set os \<longrightarrow>
         commit n (OrderCard_onload ord p) os
           = Inr (map (\<lambda>x. if order_id x = order_id ord
                            then x\<lparr>photos := Some (orEmpty (photos ord) @ [p])\<rparr> else x) os))"
  by (auto simp add: OrderCard_onload_def CustomerOrderView_onload_def handlePhotoUpdate_def
        find_None_iff)

theorem photo_upload_witness:
  "OrderCard_onload sampleOrder (lit ''P1'') = UpdateDoc (lit ''Ord7'') (SetPhotos [lit ''P1''])
   \<and> CustomerOrderView_onload (applyUpdate (SetPhotos [lit ''P1'']) sampleOrder) (lit ''P2'')
        = UpdateDoc (lit ''Ord7'') (SetPhotos [lit ''P1'', lit ''P2''])
   \<and> commit (lit ''n'') (OrderCard_onload sampleOrder (lit ''P1'')) [orphanOrder, sampleOrder]
        = Inr [orphanOrder, sampleOrder\<lparr>photos := Some [lit ''P1'']\<rparr>]"
  using photo_upload_appends [where ord = sampleOrder and p = "lit ''P1''" and ?p1.0 = "lit ''P1''"
      and ?p2.0 = "lit ''P2''" and os = "[orphanOrder, sampleOrder]" and n = "lit ''n''"]
  by (simp add: sampleOrder_def orphanOrder_def OrderCard_onload_def
        CustomerOrderView_onload_def handlePhotoUpdate_def lit_def)


section \<open>Order status\<close>

text \<open>
  C8. For every order in the store, whatever its current status, and every target
  status, \<open>handleUpdateStatus\<close> succeeds: the store then holds the same orders, the orders
  with the given id with the target status and every other field as before, and all
  other orders unchanged. No transition is refused.
\<close>

theorem handleUpdateStatus_any_transition:
  assumes "ord \<in> set os"
  shows "commit n (handleUpdateStatus (order_id ord) target) os
           = Inr (map (\<lambda>x. if order_id x = order_id ord then x\<lparr>order_status := target\<rparr> else x) os)
       \<and> ord\<lparr>order_status := target\<rparr>
            \<in> set (map (\<lambda>x. if order_id x = order_id ord then x\<lparr>order_status := target\<rparr> else x) os)
       \<and> order_status (ord\<lparr>order_status := target\<rparr>) = target
       \<and> order_id (ord\<lparr>order_status := target\<rparr>) = order_id ord
       \<and> customerId (ord\<lparr>order_status := target\<rparr>) = customerId ord
       \<and> measurements (ord\<lparr>order_status := target\<rparr>) = measurements ord
       \<and> payment (ord\<lparr>order_status := target\<rparr>) = payment ord
       \<and> messages (ord\<lparr>order_status := target\<rparr>) = messages ord
       \<and> photos (ord\<lparr>order_status := target\<rparr>) = photos ord
       \<and> createdAt (ord\<lparr>order_status := target\<rparr>) = createdAt ord"
  using assms by (auto simp add: handleUpdateStatus_def find_None_iff)

theorem handleUpdateStatus_witness:
  "sampleOrder \<in> set [orphanOrder, sampleOrder]
   \<and> commit (lit ''n'') (handleUpdateStatus (lit ''Ord7'') PENDING) [orphanOrder, sampleOrder]
       = Inr [orphanOrder, sampleOrder\<lparr>order_status := PENDING\<rparr>]
   \<and> commit (lit ''n'') (handleUpdateStatus (lit ''Ord7'') STITCHING) [orphanOrder, sampleOrder]
       = Inr [orphanOrder, sampleOrder]
   \<and> commit (lit ''n'') (handleUpdateStatus (lit ''Ord7'') DELIVERED) [orphanOrder, sampleOrder]
       = Inr [orphanOrder, sampleOrder\<lparr>order_status := DELIVERED\<rparr>]"
proof -
  have h: "sampleOrder \<in> set [orphanOrder, sampleOrder]"
    by simp
  show ?thesis
    using h handleUpdateStatus_any_transition [OF h, where n = "lit ''n''" and target = PENDING]
      handleUpdateStatus_any_transition [OF h, where n = "lit ''n''" and target = DELIVERED]
    by (simp add: sampleOrder_def orphanOrder_def handleUpdateStatus_def lit_def)
qed


section \<open>Customer login\<close>

text \<open>
  C9. \<open>loginAsCustomer\<close> returns true if and only if some customer in the list has a
  mobile number equal to the supplied text. When it returns true, the current user is
  set to the role \<open>CUSTOMER\<close> with the id of the matched customer (the first such
  customer in the list); when it returns false, the state, and with it the current user,
  is unchanged.
\<close>

theorem loginAsCustomer_iff:
  "(fst (loginAsCustomer mobile st) \<longleftrightarrow> (\<exists>c \<in> set (customers st). mobileNumber c = mobile))
   \<and> (fst (loginAsCustomer mobile st) \<longrightarrow>
        (\<exists>c \<in> set (customers st). mobileNumber c = mobile
           \<and> find (\<lambda>c. mobileNumber c = mobile) (customers st) = Some c
           \<and> snd (loginAsCustomer mobile st)
               = st\<lparr>currentUser := Some \<lparr> role = CUSTOMER, user_id = Some (customer_id c) \<rparr>\<rparr>))
   \<and> (\<not> fst (loginAsCustomer mobile st) \<longrightarrow> snd (loginAsCustomer mobile st) = st)"
proof (cases "find (\<lambda>c. mobileNumber c = mobile) (customers st)")
  case None
  then have absent: "\<not> (\<exists>c \<in> set (customers st). mobileNumber c = mobile)"
    by (auto simp add: find_None_iff)
  have "loginAsCustomer mobile st = (False, st)"
    by (simp add: loginAsCustomer_def None)
  with absent show ?thesis
    by simp
next
  case (Some c)
  then have present: "c \<in> set (customers st) \<and> mobileNumber c = mobile"
    by (auto simp add: find_Some_iff)
  have "loginAsCustomer mobile st
          = (True, st\<lparr>currentUser := Some \<lparr> role = CUSTOMER, user_id = Some (customer_id c) \<rparr>\<rparr>)"
    by (simp add: loginAsCustomer_def Some)
  with present Some show ?thesis
    by auto
qed

theorem loginAsCustomer_witness:
  "loginAsCustomer (lit ''03001234567'') sampleState
     = (True, sampleState\<lparr>currentUser := Some \<lparr> role = CUSTOMER, user_id = Some (lit ''c1'') \<rparr>\<rparr>)
   \<and> loginAsCustomer (lit ''0300'') sampleState = (False, sampleState)"
  using loginAsCustomer_iff [where mobile = "lit ''03001234567''" and st = sampleState]
    loginAsCustomer_iff [where mobile = "lit ''0300''" and st = sampleState]
  by (simp add: loginAsCustomer_def sampleState_def aliKhan_def lit_def)

end
